theory Spec2Isabelle
  imports Complex_Main "HOL-Library.Log_Nat"
begin

section \<open>JavaScript values shared by the modules\<close>

text \<open>
  A thrown value is either an \<open>Error\<close> object with its message or something that is
  not an instance of \<open>Error\<close>. A function that can throw returns \<open>thrown + 'a\<close>.
\<close>

datatype thrown = Error string | NonError

text \<open>\<open>error instanceof Error ? error.message : 'Unknown error'\<close>\<close>

definition errorMessage :: "thrown \<Rightarrow> string" where
  "errorMessage e = (case e of Error m \<Rightarrow> m | NonError \<Rightarrow> ''Unknown error'')"

text \<open>
  \<open>Array.prototype.slice(start, end)\<close> on integer arguments: a negative index counts
  from the end of the array, and both indices are clamped to the array.
\<close>

definition slice :: "'a list \<Rightarrow> int \<Rightarrow> int \<Rightarrow> 'a list" where
  "slice xs start fin =
     (let len = int (length xs);
          k = (if start < 0 then max (len + start) 0 else min start len);
          final = (if fin < 0 then max (len + fin) 0 else min fin len)
      in take (nat (final - k)) (drop (nat k) xs))"

text \<open>\<open>checkAIConfiguration\<close> of \<open>providers.ts\<close>: throws when no API key is configured.\<close>

definition checkAIConfiguration :: "bool \<Rightarrow> thrown + unit" where
  "checkAIConfiguration isAvailable =
     (if \<not> isAvailable
      then Inl (Error ''OpenAI API key not configured. Please set OPENAI_API_KEY in your .env file.'')
      else Inr ())"


section \<open>Numbers\<close>

text \<open>
  A JavaScript \<open>number\<close> is an IEEE 754 double. A number that carries a time or a
  duration is a \<^typ>\<open>real\<close> here: the number as the external model or the caller
  wrote it. The code holds the double nearest to it, which is \<open>toDouble\<close> of it, and
  an arithmetic operation of the code is the exact operation followed by \<open>toDouble\<close>.
  \<open>toDouble\<close> is the identity on a double, so a field that already holds a double is
  read as it is. The remainder \<open>%\<close>, \<open>Math.floor\<close> and the comparisons are exact on
  doubles. The infinities and \<open>NaN\<close> are not values of the model; a difference of
  two doubles that overflows is rounded as if the exponents had no upper end, and
  compares with a finite double as the infinity does. A number that is used as a count
  or as a pixel size is an \<^typ>\<open>int\<close>.

  \<open>exponentOf x\<close> is the exponent \<open>e\<close> of a positive real, for which
  \<open>2 powi e \<le> x < 2 powi (e + 1)\<close>, read from the number of binary digits of the
  integer part of \<open>x\<close> or of \<open>1 / x\<close>.
\<close>

definition exponentOf :: "real \<Rightarrow> int" where
  "exponentOf x =
     (if 1 \<le> x then bitlen \<lfloor>x\<rfloor> - 1 else - bitlen (\<lceil>1 / x\<rceil> - 1))"

text \<open>The nearest integer, a tie going to the even one.\<close>

definition roundHalfEven :: "real \<Rightarrow> int" where
  "roundHalfEven z =
     (let f = \<lfloor>z\<rfloor>; d = z - of_int f
      in if d < 1 / 2 then f else if 1 / 2 < d then f + 1 else if even f then f else f + 1)"

text \<open>
  The double nearest to a real: a significand of 53 binary digits at the exponent of
  the number, which is not below \<open>-1022\<close>, where the subnormal numbers begin.
\<close>

definition toDouble :: "real \<Rightarrow> real" where
  "toDouble x =
     (if x = 0 then 0
      else (let e = max (exponentOf \<bar>x\<bar>) (- 1022); u = 2 powi (e - 52)
            in of_int (roundHalfEven (x / u)) * u))"

text \<open>The remainder operator \<open>%\<close>: the quotient is truncated towards zero.\<close>

definition trunc :: "real \<Rightarrow> int" where
  "trunc z = (if z \<ge> 0 then \<lfloor>z\<rfloor> else \<lceil>z\<rceil>)"

definition jsRem :: "real \<Rightarrow> real \<Rightarrow> real" where
  "jsRem a b = a - b * of_int (trunc (a / b))"

text \<open>\<open>Math.round\<close>: the nearest integer, a tie going up.\<close>

definition Math_round :: "real \<Rightarrow> int" where
  "Math_round z = \<lfloor>z + 1 / 2\<rfloor>"


section \<open>Highlight detection (\<open>detectHighlights\<close>)\<close>

record Highlight =
  title :: string
  description :: string
  startTime :: real
  endTime :: real
  hookText :: string
  score :: real
  tags :: "string list"

record HighlightsResult =
  highlights :: "Highlight list"
  summary :: string
  mainTopics :: "string list"

text \<open>The optional argument of \<open>detectHighlights\<close>; an absent field is \<open>None\<close>.\<close>

record DetectOptions =
  maxHighlights :: "int option"
  minDuration :: "real option"
  maxDuration :: "real option"
  targetAudience :: "string option"
  contentType :: "string option"

text \<open>The destructuring \<open>const { maxHighlights = 5, minDuration = 15, maxDuration = 60, ... } = options || {}\<close>.\<close>

definition maxHighlightsOf :: "DetectOptions option \<Rightarrow> int" where
  "maxHighlightsOf options =
     (case options of None \<Rightarrow> 5
      | Some opts \<Rightarrow> (case maxHighlights opts of None \<Rightarrow> 5 | Some n \<Rightarrow> n))"

definition minDurationOf :: "DetectOptions option \<Rightarrow> real" where
  "minDurationOf options =
     (case options of None \<Rightarrow> 15
      | Some opts \<Rightarrow> (case minDuration opts of None \<Rightarrow> 15 | Some d \<Rightarrow> d))"

definition maxDurationOf :: "DetectOptions option \<Rightarrow> real" where
  "maxDurationOf options =
     (case options of None \<Rightarrow> 60
      | Some opts \<Rightarrow> (case maxDuration opts of None \<Rightarrow> 60 | Some d \<Rightarrow> d))"

text \<open>
  The predicate of the \<open>filter\<close> call: \<open>const duration = h.endTime - h.startTime\<close>,
  the difference of two doubles rounded to a double, and
  \<open>duration >= minDuration && duration <= maxDuration\<close>.
\<close>

definition isValid :: "real \<Rightarrow> real \<Rightarrow> Highlight \<Rightarrow> bool" where
  "isValid minD maxD h =
     (let duration = toDouble (toDouble (Highlight.endTime h) - toDouble (Highlight.startTime h))
      in duration \<ge> toDouble minD \<and> duration \<le> toDouble maxD)"

text \<open>
  The external language model is reached through \<open>generateObject\<close>, which either throws
  (transport failure, or an answer that does not fit the schema) or returns an object of
  the schema. The model is the function \<open>generateObject\<close> from the number of the request
  to its outcome, and \<open>calls\<close> counts the requests made so far; \<open>detectHighlights\<close>
  returns its result together with the new count. The text of the prompts does not
  influence what the function does with the answer and is left out.

  \<open>checkAIConfiguration()\<close> runs before the \<open>try\<close> block, so its error is not wrapped.
\<close>

definition detectHighlights ::
  "bool \<Rightarrow> (nat \<Rightarrow> thrown + HighlightsResult) \<Rightarrow> nat \<Rightarrow> DetectOptions option
     \<Rightarrow> (thrown + HighlightsResult) \<times> nat" where
  "detectHighlights isAvailable generateObject calls options =
     (case checkAIConfiguration isAvailable of
        Inl e \<Rightarrow> (Inl e, calls)
      | Inr _ \<Rightarrow>
         (case generateObject calls of
            Inl error \<Rightarrow>
              (Inl (Error (''Failed to detect highlights: '' @ errorMessage error)), Suc calls)
          | Inr object \<Rightarrow>
              (let validatedHighlights =
                     slice (filter (isValid (minDurationOf options) (maxDurationOf options))
                                   (highlights object))
                           0 (maxHighlightsOf options)
               in (Inr (object\<lparr>highlights := validatedHighlights\<rparr>), Suc calls))))"



section \<open>Strings and numbers of the JavaScript runtime\<close>

text \<open>
  A string is the list of its characters, and a character of the model is a code point
  below U+0100. The code applies \<open>toUpperCase\<close> to what \<open>toString(16)\<close> wrote, which is
  ASCII.
\<close>

definition newline :: string where
  "newline = [CHR 0x0A]"

definition backslash :: string where
  "backslash = [CHR 0x5C]"

text \<open>\<open>Array.prototype.join(sep)\<close> on an array of strings.\<close>

fun join :: "string \<Rightarrow> string list \<Rightarrow> string" where
  "join sep [] = []"
| "join sep [x] = x"
| "join sep (x # y # ys) = x @ sep @ join sep (y # ys)"

definition toUpperChar :: "char \<Rightarrow> char" where
  "toUpperChar c =
     (case map_of (zip ''abcdefghijklmnopqrstuvwxyz'' ''ABCDEFGHIJKLMNOPQRSTUVWXYZ'') c of
        None \<Rightarrow> c | Some u \<Rightarrow> u)"

definition toUpperCase :: "string \<Rightarrow> string" where
  "toUpperCase s = map toUpperChar s"

text \<open>
  The white space and the line terminators of JavaScript below U+0100: space, tab, line
  feed, vertical tab, form feed, carriage return and the no-break space U+00A0.
\<close>

definition isWhiteSpace :: "char \<Rightarrow> bool" where
  "isWhiteSpace c =
     (c \<in> set [CHR 0x20, CHR 0x09, CHR 0x0A, CHR 0x0B, CHR 0x0C, CHR 0x0D, CHR 0xA0])"

text \<open>
  \<open>String.prototype.toLowerCase\<close> and \<open>String.prototype.trim\<close> are functions of the
  JavaScript runtime and work on every character of Unicode. A function of the code
  that calls them takes the runtime as its argument \<open>js\<close>, and what is proved of such
  a function holds for every runtime.

  \<open>latin1\<close> is the runtime on the characters of the model. The capital letters below
  U+0100 are \<open>A\<close> to \<open>Z\<close> and U+00C0 to U+00DE without the multiplication sign U+00D7,
  and the small letter of each lies 32 code points above it; \<open>trim\<close> removes the white
  space and the line terminators at both ends.
\<close>

record runtime =
  toLowerCase :: "string \<Rightarrow> string"
  trim :: "string \<Rightarrow> string"

definition toLowerChar :: "char \<Rightarrow> char" where
  "toLowerChar c =
     (let n = (of_char c :: nat)
      in if (65 \<le> n \<and> n \<le> 90) \<or> (192 \<le> n \<and> n \<le> 222 \<and> n \<noteq> 215)
         then char_of (n + 32) else c)"

definition latin1 :: runtime where
  "latin1 =
     \<lparr>toLowerCase = map toLowerChar,
      trim = (\<lambda>s. rev (dropWhile isWhiteSpace (rev (dropWhile isWhiteSpace s))))\<rparr>"

text \<open>\<open>s.padStart(n, c)\<close> with a one-character filler.\<close>

definition padStart :: "nat \<Rightarrow> char \<Rightarrow> string \<Rightarrow> string" where
  "padStart n c s = replicate (n - length s) c @ s"

text \<open>\<open>s.substring(a, b)\<close> for \<open>a \<le> b\<close>, the only way the code calls it.\<close>

definition substring :: "string \<Rightarrow> nat \<Rightarrow> nat \<Rightarrow> string" where
  "substring s a b = take (b - a) (drop a s)"

text \<open>
  \<open>Number.prototype.toString(radix)\<close> on an integer value: the digits in the radix, with
  a minus sign for a negative number, and \<open>NaN\<close> for the one value that is no number.
  The runtime writes every digit of an integer below \<open>2 ^ 53\<close>; a larger double is
  written with the shortest digits that read back as the same double, or with an
  exponent, which is not modelled.
\<close>

definition digitChar :: "nat \<Rightarrow> char" where
  "digitChar d = ''0123456789abcdefghijklmnopqrstuvwxyz'' ! d"

fun natToString :: "nat \<Rightarrow> nat \<Rightarrow> string" where
  "natToString radix n =
     (if radix < 2 \<or> n < radix then [digitChar n]
      else natToString radix (n div radix) @ [digitChar (n mod radix)])"

declare natToString.simps [simp del]

definition intToString :: "nat \<Rightarrow> int \<Rightarrow> string" where
  "intToString radix i =
     (if i < 0 then ''-'' @ natToString radix (nat (- i)) else natToString radix (nat i))"

definition numberToString :: "nat \<Rightarrow> int option \<Rightarrow> string" where
  "numberToString radix v = (case v of None \<Rightarrow> ''NaN'' | Some i \<Rightarrow> intToString radix i)"

text \<open>
  \<open>parseInt(s, 16)\<close>: leading white space is skipped, a sign is read, a prefix \<open>0x\<close> or
  \<open>0X\<close> is dropped, and the longest run of hexadecimal digits that follows is the
  value; without such a digit the result is \<open>NaN\<close>, here \<open>None\<close>.
\<close>

definition hexDigitValue :: "char \<Rightarrow> nat option" where
  "hexDigitValue c =
     map_of (zip ''0123456789abcdefABCDEF''
                 [0, 1, 2, 3, 4, 5, 6, 7, 8, 9, 10, 11, 12, 13, 14, 15, 10, 11, 12, 13, 14, 15]) c"

definition hexValue :: "string \<Rightarrow> nat" where
  "hexValue Z = foldl (\<lambda>acc c. 16 * acc + the (hexDigitValue c)) 0 Z"

definition parseInt16 :: "string \<Rightarrow> int option" where
  "parseInt16 s =
     (let S = dropWhile isWhiteSpace s;
          sign = (if S \<noteq> [] \<and> hd S = CHR ''-'' then - 1 else 1 :: int);
          S1 = (if S \<noteq> [] \<and> (hd S = CHR ''+'' \<or> hd S = CHR ''-'') then tl S else S);
          S2 = (if take 2 S1 = ''0x'' \<or> take 2 S1 = ''0X'' then drop 2 S1 else S1);
          Z = takeWhile (\<lambda>c. hexDigitValue c \<noteq> None) S2
      in if Z = [] then None else Some (sign * int (hexValue Z)))"


section \<open>Caption generation (\<open>generateCaptions\<close>)\<close>

datatype position = Top | Center | Bottom

record CaptionWord =
  word :: string
  startTime :: real
  endTime :: real
  emphasis :: bool

record CaptionSegment =
  startTime :: real
  endTime :: real
  words :: "CaptionWord list"
  position :: position

text \<open>The font size is a whole number of pixels in the model.\<close>

record CaptionStyle =
  fontSize :: int
  color :: string
  highlightColor :: string

record CaptionsResult =
  captions :: "CaptionSegment list"
  style :: CaptionStyle
  hook :: string

text \<open>\<open>WordTimestamp\<close> of the transcription module; its field \<open>end\<close> is \<open>end'\<close> here.\<close>

record WordTimestamp =
  word :: string
  start :: real
  end' :: real

text \<open>
  The optional argument of \<open>generateCaptions\<close>. Its fields are written into the prompt
  for the external model and are used nowhere else.
\<close>

record CaptionOptions =
  maxWordsPerSegment :: "int option"
  emphasizeKeywords :: "bool option"
  includeHook :: "bool option"
  language :: "string option"

definition maxWordsPerSegmentOf :: "CaptionOptions option \<Rightarrow> int" where
  "maxWordsPerSegmentOf options =
     (case options of None \<Rightarrow> 3
      | Some opts \<Rightarrow> (case maxWordsPerSegment opts of None \<Rightarrow> 3 | Some n \<Rightarrow> n))"

text \<open>\<open>new Set(words.map(w => w.word.toLowerCase().trim()))\<close>\<close>

definition originalWords :: "runtime \<Rightarrow> WordTimestamp list \<Rightarrow> string set" where
  "originalWords js inputWords =
     set (map (\<lambda>w. trim js (toLowerCase js (WordTimestamp.word w))) inputWords)"

text \<open>\<open>result.object.captions.flatMap(seg => seg.words.map(w => w.word.toLowerCase().trim()))\<close>\<close>

definition captionWords :: "runtime \<Rightarrow> CaptionsResult \<Rightarrow> string list" where
  "captionWords js object =
     concat (map (\<lambda>seg. map (\<lambda>w. trim js (toLowerCase js (CaptionWord.word w))) (words seg))
                 (captions object))"

text \<open>\<open>captionWords.filter(w => !originalWords.has(w))\<close>\<close>

definition hallucinatedWords ::
  "runtime \<Rightarrow> WordTimestamp list \<Rightarrow> CaptionsResult \<Rightarrow> string list" where
  "hallucinatedWords js inputWords object =
     filter (\<lambda>w. w \<notin> originalWords js inputWords) (captionWords js object)"

text \<open>The statements of the \<open>try\<close> block that follow the answer of the external model.\<close>

definition validateCaptions ::
  "runtime \<Rightarrow> WordTimestamp list \<Rightarrow> CaptionsResult \<Rightarrow> thrown + CaptionsResult" where
  "validateCaptions js inputWords object =
     (if length (hallucinatedWords js inputWords object) > 0
      then Inl (Error (''AI hallucinated words not in transcription: ''
                         @ join '', '' (hallucinatedWords js inputWords object)))
      else Inr object)"

text \<open>
  As in \<open>detectHighlights\<close>, \<open>generateObject\<close> is the external model and \<open>calls\<close> the
  number of requests made so far. Every value thrown inside the \<open>try\<close> block, the
  hallucination error included, is caught and thrown again under the prefix
  \<open>Failed to generate captions: \<close>.
\<close>

definition generateCaptions ::
  "runtime \<Rightarrow> bool \<Rightarrow> (nat \<Rightarrow> thrown + CaptionsResult) \<Rightarrow> nat \<Rightarrow> WordTimestamp list
     \<Rightarrow> CaptionOptions option \<Rightarrow> (thrown + CaptionsResult) \<times> nat" where
  "generateCaptions js isAvailable generateObject calls inputWords options =
     (case checkAIConfiguration isAvailable of
        Inl e \<Rightarrow> (Inl e, calls)
      | Inr _ \<Rightarrow>
         (case (case generateObject calls of
                  Inl e \<Rightarrow> Inl e
                | Inr object \<Rightarrow> validateCaptions js inputWords object) of
            Inl error \<Rightarrow>
              (Inl (Error (''Failed to generate captions: '' @ errorMessage error)), Suc calls)
          | Inr object \<Rightarrow> (Inr object, Suc calls)))"


section \<open>The subtitle encoder (\<open>captionsToASS\<close>)\<close>

text \<open>
  \<open>hexToASSColor(hex, alpha)\<close>; a call without \<open>alpha\<close> passes the default 1. The
  product \<open>(1 - alpha) * 255\<close> is exact here; for the two opacities that the encoder
  passes, 1 and 0.8, the product in doubles is rounded to the same byte.
\<close>

definition hexToASSColor :: "string \<Rightarrow> real \<Rightarrow> string" where
  "hexToASSColor hex alpha =
     (let cleanHex = remove1 (CHR ''#'') hex;
          r = parseInt16 (substring cleanHex 0 2);
          g = parseInt16 (substring cleanHex 2 4);
          b = parseInt16 (substring cleanHex 4 6);
          a = Math_round ((1 - alpha) * 255)
      in ''&H'' @ toUpperCase (padStart 2 (CHR ''0'') (numberToString 16 (Some a)))
              @ toUpperCase (padStart 2 (CHR ''0'') (numberToString 16 b))
              @ toUpperCase (padStart 2 (CHR ''0'') (numberToString 16 g))
              @ toUpperCase (padStart 2 (CHR ''0'') (numberToString 16 r)))"

text \<open>
  \<open>formatASSTime(seconds)\<close>. The quotients \<open>seconds / 3600\<close> and
  \<open>(seconds % 3600) / 60\<close> and the product \<open>(seconds % 1) * 100\<close> are rounded to
  doubles before \<open>Math.floor\<close> is applied.
\<close>

definition formatASSTime :: "real \<Rightarrow> string" where
  "formatASSTime seconds =
     (let s = toDouble seconds;
          hours = \<lfloor>toDouble (s / 3600)\<rfloor>;
          minutes = \<lfloor>toDouble (jsRem s 3600 / 60)\<rfloor>;
          secs = \<lfloor>jsRem s 60\<rfloor>;
          centiseconds = \<lfloor>toDouble (jsRem s 1 * 100)\<rfloor>
      in intToString 10 hours @ '':'' @ padStart 2 (CHR ''0'') (intToString 10 minutes)
           @ '':'' @ padStart 2 (CHR ''0'') (intToString 10 secs)
           @ ''.'' @ padStart 2 (CHR ''0'') (intToString 10 centiseconds))"

text \<open>
  \<open>const wordStyle = word.emphasis ? 'Highlight' : 'Highlight'\<close>, the only place where
  the encoder reads the emphasis flag.
\<close>

definition wordStyle :: "CaptionWord \<Rightarrow> string" where
  "wordStyle active = (if emphasis active then ''Highlight'' else ''Highlight'')"

text \<open>
  The inner \<open>map\<close> of \<open>generateKaraokeEvents\<close>: one word \<open>w\<close> of the line, as it is
  drawn in the event of the word \<open>active\<close>. The test
  \<open>w.word === word.word && w.startTime === word.startTime\<close> compares two doubles.
\<close>

definition karaokeWord :: "CaptionStyle \<Rightarrow> CaptionWord \<Rightarrow> CaptionWord \<Rightarrow> string" where
  "karaokeWord st active w =
     (if CaptionWord.word w = CaptionWord.word active
         \<and> toDouble (CaptionWord.startTime w) = toDouble (CaptionWord.startTime active)
      then ''{'' @ backslash @ ''1c'' @ hexToASSColor (highlightColor st) 1
             @ backslash @ ''3c&H00000000'' @ backslash @ ''bord3}'' @ CaptionWord.word w
      else ''{'' @ backslash @ ''1c&H00FFFFFF'' @ backslash @ ''3c&H00000000''
             @ backslash @ ''bord2}'' @ CaptionWord.word w)"

text \<open>The outer \<open>map\<close>: the event of one word of the segment.\<close>

definition karaokeEvent :: "CaptionStyle \<Rightarrow> CaptionWord list \<Rightarrow> CaptionWord \<Rightarrow> string" where
  "karaokeEvent st ws active =
     (let start = formatASSTime (CaptionWord.startTime active);
          fin = formatASSTime (CaptionWord.endTime active);
          wordStyle = wordStyle active;
          fullText = join '' '' (map (karaokeWord st active) ws)
      in ''Dialogue: 0,'' @ start @ '','' @ fin @ '',Default,,0,0,0,,'' @ fullText @ newline)"

definition generateKaraokeEvents :: "CaptionSegment \<Rightarrow> CaptionStyle \<Rightarrow> string" where
  "generateKaraokeEvents segment st =
     join [] (map (karaokeEvent st (words segment)) (words segment))"

text \<open>The template literal \<open>header\<close> of \<open>captionsToASS\<close>.\<close>

definition header :: "CaptionStyle \<Rightarrow> string" where
  "header st =
     ''[Script Info]'' @ newline
     @ ''Title: Clipwise Captions'' @ newline
     @ ''ScriptType: v4.00+'' @ newline
     @ ''WrapStyle: 0'' @ newline
     @ ''ScaledBorderAndShadow: yes'' @ newline
     @ ''YCbCr Matrix: None'' @ newline
     @ ''PlayResY: 1920'' @ newline
     @ newline
     @ ''[V4+ Styles]'' @ newline
     @ ''Format: Name, Fontname, Fontsize, PrimaryColour, SecondaryColour, OutlineColour, BackColour, Bold, Italic, Underline, StrikeOut, ScaleX, ScaleY, Spacing, Angle, BorderStyle, Outline, Shadow, Alignment, MarginL, MarginR, MarginV, Encoding'' @ newline
     @ ''Style: Default,Arial,'' @ intToString 10 (fontSize st)
       @ '',&H00FFFFFF,&H00FFFFFF,&H00000000,&H80000000,1,0,0,0,100,100,0,0,1,2,1,2,10,10,480,1'' @ newline
     @ ''Style: Highlight,Arial,'' @ intToString 10 (fontSize st) @ '','' @ hexToASSColor (highlightColor st) 1
       @ '','' @ hexToASSColor (highlightColor st) 1 @ '',&H00000000,'' @ hexToASSColor (highlightColor st) (8 / 10)
       @ '',1,0,0,0,100,100,0,0,1,2,1,2,10,10,480,1'' @ newline
     @ newline
     @ ''[Events]'' @ newline
     @ ''Format: Layer, Start, End, Style, Name, MarginL, MarginR, MarginV, Effect, Text'' @ newline"

definition captionsToASS :: "CaptionsResult \<Rightarrow> string" where
  "captionsToASS captionsResult =
     (let events = join [] (map (\<lambda>segment. generateKaraokeEvents segment (style captionsResult))
                                (captions captionsResult))
      in header (style captionsResult) @ events)"


section \<open>The video processor (\<open>processor.ts\<close>)\<close>

text \<open>
  The media engine and the file system are the environment. A file system is the set of
  the paths that exist. A run of the engine either ends, and its output file exists, or
  fails with a message, and a partial output file may or may not be left behind. What
  the engine and \<open>ffprobe\<close> answer is given by the functions of a \<open>world\<close>.
\<close>

datatype videoFilter = Crop int int int int | Scale int int

datatype ffmpegCommand =
    ExtractCmd string real real string
  | FilterCmd string "videoFilter list" string
  | AssCmd string string string

fun outputOf :: "ffmpegCommand \<Rightarrow> string" where
  "outputOf (ExtractCmd inputPath startSeconds duration outputPath) = outputPath"
| "outputOf (FilterCmd inputPath filters outputPath) = outputPath"
| "outputOf (AssCmd inputPath assPath outputPath) = outputPath"

datatype ffmpegOutcome = End | Failure string bool

record stream =
  codec_type :: string
  width :: "int option"
  height :: "int option"

record world =
  tmpdir :: string
  ffprobe :: "string \<Rightarrow> string + stream list"
  ffmpeg :: "ffmpegCommand \<Rightarrow> ffmpegOutcome"
  writeFileError :: "string \<Rightarrow> thrown option"
  renameError :: "string \<Rightarrow> string \<Rightarrow> thrown option"

type_synonym files = "string set"

text \<open>Sequencing of two steps that may throw: the second runs when the first returned.\<close>

definition andThen ::
  "(thrown + 'a) \<times> files \<Rightarrow> ('a \<Rightarrow> files \<Rightarrow> (thrown + 'b) \<times> files) \<Rightarrow> (thrown + 'b) \<times> files" where
  "andThen r k = (case r of (Inl e, fs) \<Rightarrow> (Inl e, fs) | (Inr a, fs) \<Rightarrow> k a fs)"

text \<open>
  \<open>fs.unlink\<close>, \<open>fs.rename\<close> and \<open>fs.writeFile\<close>. Removing a file that exists
  succeeds; removing or renaming a file that does not exist throws. A failing
  \<open>writeFile\<close> or \<open>rename\<close> leaves the file system as it was.
\<close>

definition unlink :: "string \<Rightarrow> files \<Rightarrow> (thrown + unit) \<times> files" where
  "unlink p fs =
     (if p \<in> fs then (Inr (), fs - {p})
      else (Inl (Error (''ENOENT: no such file or directory, unlink '' @ p)), fs))"

definition rename :: "world \<Rightarrow> string \<Rightarrow> string \<Rightarrow> files \<Rightarrow> (thrown + unit) \<times> files" where
  "rename w oldPath newPath fs =
     (if oldPath \<notin> fs
      then (Inl (Error (''ENOENT: no such file or directory, rename '' @ oldPath)), fs)
      else (case renameError w oldPath newPath of
              Some e \<Rightarrow> (Inl e, fs)
            | None \<Rightarrow> (Inr (), insert newPath (fs - {oldPath}))))"

definition writeFile :: "world \<Rightarrow> string \<Rightarrow> string \<Rightarrow> files \<Rightarrow> (thrown + unit) \<times> files" where
  "writeFile w p content fs =
     (case writeFileError w p of
        Some e \<Rightarrow> (Inl e, fs)
      | None \<Rightarrow> (Inr (), insert p fs))"

text \<open>
  One run of the engine, as each function of the module wraps it in a promise: \<open>end\<close>
  resolves, \<open>error\<close> rejects with \<open>new Error(`FFmpeg error: ${err.message}`)\<close>.
\<close>

definition runFfmpeg :: "world \<Rightarrow> ffmpegCommand \<Rightarrow> files \<Rightarrow> (thrown + unit) \<times> files" where
  "runFfmpeg w cmd fs =
     (case ffmpeg w cmd of
        End \<Rightarrow> (Inr (), insert (outputOf cmd) fs)
      | Failure message partial \<Rightarrow>
          (Inl (Error (''FFmpeg error: '' @ message)),
           if partial then insert (outputOf cmd) fs else fs))"

definition extractClip ::
  "world \<Rightarrow> string \<Rightarrow> real \<Rightarrow> real \<Rightarrow> string \<Rightarrow> files \<Rightarrow> (thrown + unit) \<times> files" where
  "extractClip w inputPath startSeconds endSeconds outputPath fs =
     (let duration = toDouble (toDouble endSeconds - toDouble startSeconds)
      in runFfmpeg w (ExtractCmd inputPath (toDouble startSeconds) duration outputPath) fs)"

text \<open>The optional argument of \<open>cropToVertical\<close>.\<close>

record CropOptions =
  width :: "int option"
  height :: "int option"
  position :: "position option"

text \<open>
  The crop window and the scale that \<open>cropToVertical\<close> computes from the dimensions of
  the source, as the list of filters it hands to the engine.
\<close>

definition cropFilters :: "int \<Rightarrow> int \<Rightarrow> int \<Rightarrow> int \<Rightarrow> position \<Rightarrow> videoFilter list" where
  "cropFilters sourceWidth sourceHeight targetWidth targetHeight pos =
     (let targetAspect = (9 / 16 :: real);
          sourceAspect = real_of_int sourceWidth / real_of_int sourceHeight
      in if sourceAspect > targetAspect
         then (let cropWidth = \<lfloor>real_of_int sourceHeight * targetAspect\<rfloor>;
                   cropX = \<lfloor>real_of_int (sourceWidth - cropWidth) / 2\<rfloor>;
                   cropY = 0
               in [Crop cropWidth sourceHeight cropX cropY, Scale targetWidth targetHeight])
         else (let cropHeight = \<lfloor>real_of_int sourceWidth / targetAspect\<rfloor>;
                   cropY = (if pos = Top then 0
                            else if pos = Bottom then sourceHeight - cropHeight
                            else \<lfloor>real_of_int (sourceHeight - cropHeight) / 2\<rfloor>);
                   cropX = 0
               in [Crop sourceWidth cropHeight cropX cropY, Scale targetWidth targetHeight]))"

text \<open>The destructuring \<open>const { width = 1080, height = 1920, position = 'center' } = options || {}\<close>.\<close>

definition targetWidthOf :: "CropOptions option \<Rightarrow> int" where
  "targetWidthOf options =
     (case options of None \<Rightarrow> 1080
      | Some opts \<Rightarrow> (case CropOptions.width opts of None \<Rightarrow> 1080 | Some v \<Rightarrow> v))"

definition targetHeightOf :: "CropOptions option \<Rightarrow> int" where
  "targetHeightOf options =
     (case options of None \<Rightarrow> 1920
      | Some opts \<Rightarrow> (case CropOptions.height opts of None \<Rightarrow> 1920 | Some v \<Rightarrow> v))"

definition positionOf :: "CropOptions option \<Rightarrow> position" where
  "positionOf options =
     (case options of None \<Rightarrow> Center
      | Some opts \<Rightarrow> (case CropOptions.position opts of None \<Rightarrow> Center | Some v \<Rightarrow> v))"

text \<open>
  \<open>cropToVertical\<close>: \<open>ffprobe\<close> reads the streams of the input; the first video stream
  gives the dimensions of the source, and a missing stream or a width or height that is
  missing or 0 rejects the promise.
\<close>

definition cropToVertical ::
  "world \<Rightarrow> string \<Rightarrow> string \<Rightarrow> CropOptions option \<Rightarrow> files \<Rightarrow> (thrown + unit) \<times> files" where
  "cropToVertical w inputPath outputPath options fs =
     (case ffprobe w inputPath of
        Inl message \<Rightarrow> (Inl (Error (''FFprobe error: '' @ message)), fs)
      | Inr streams \<Rightarrow>
         (case find (\<lambda>s. codec_type s = ''video'') streams of
            None \<Rightarrow> (Inl (Error ''Could not determine video dimensions''), fs)
          | Some videoStream \<Rightarrow>
             (case (stream.width videoStream, stream.height videoStream) of
                (Some sourceWidth, Some sourceHeight) \<Rightarrow>
                  if sourceWidth = 0 \<or> sourceHeight = 0
                  then (Inl (Error ''Could not determine video dimensions''), fs)
                  else runFfmpeg w
                         (FilterCmd inputPath
                            (cropFilters sourceWidth sourceHeight (targetWidthOf options)
                               (targetHeightOf options) (positionOf options))
                            outputPath) fs
              | _ \<Rightarrow> (Inl (Error ''Could not determine video dimensions''), fs))))"

text \<open>
  \<open>burnCaptions\<close>; \<open>now\<close> is the value of \<open>Date.now()\<close> that names the subtitle file.
  Both handlers of the engine remove the subtitle file, ignoring an error of the removal,
  before the promise settles.
\<close>

definition assPathOf :: "world \<Rightarrow> nat \<Rightarrow> string" where
  "assPathOf w now = tmpdir w @ ''/captions-'' @ natToString 10 now @ ''.ass''"

definition burnCaptions ::
  "world \<Rightarrow> nat \<Rightarrow> string \<Rightarrow> CaptionsResult \<Rightarrow> string \<Rightarrow> files \<Rightarrow> (thrown + unit) \<times> files" where
  "burnCaptions w now inputPath captionsResult outputPath fs =
     (let assPath = assPathOf w now;
          assContent = captionsToASS captionsResult
      in andThen (writeFile w assPath assContent fs)
           (\<lambda>_ fs1. case runFfmpeg w (AssCmd inputPath assPath outputPath) fs1 of
                       (r, fs2) \<Rightarrow> (r, snd (unlink assPath fs2))))"

text \<open>
  The optional argument of \<open>createClip\<close>; its fields \<open>cropToVertical\<close> and
  \<open>burnCaptions\<close> carry the prefix \<open>opt_\<close> here.
\<close>

record CreateClipOptions =
  opt_cropToVertical :: "bool option"
  opt_burnCaptions :: "bool option"

definition extractedPathOf :: "world \<Rightarrow> nat \<Rightarrow> string" where
  "extractedPathOf w timestamp = tmpdir w @ ''/clip-'' @ natToString 10 timestamp @ ''-extracted.mp4''"

definition croppedPathOf :: "world \<Rightarrow> nat \<Rightarrow> string" where
  "croppedPathOf w timestamp = tmpdir w @ ''/clip-'' @ natToString 10 timestamp @ ''-cropped.mp4''"

text \<open>
  The \<open>try\<close> block of \<open>createClip\<close>. \<open>timestamp\<close> is the value of \<open>Date.now()\<close> read by
  \<open>createClip\<close>, \<open>now\<close> the one read later by \<open>burnCaptions\<close>.
\<close>

definition createClipSteps ::
  "world \<Rightarrow> nat \<Rightarrow> nat \<Rightarrow> string \<Rightarrow> real \<Rightarrow> real \<Rightarrow> CaptionsResult option \<Rightarrow> string
     \<Rightarrow> bool \<Rightarrow> bool \<Rightarrow> files \<Rightarrow> (thrown + unit) \<times> files" where
  "createClipSteps w timestamp now inputVideoPath startSeconds endSeconds captionsResult outputPath
       shouldCrop shouldBurnCaptions fs =
     (let extractedPath = extractedPathOf w timestamp
      in andThen (extractClip w inputVideoPath startSeconds endSeconds extractedPath fs)
          (\<lambda>_ fs1.
             andThen
               (if shouldCrop
                then (let croppedPath = croppedPathOf w timestamp
                      in andThen (cropToVertical w extractedPath croppedPath None fs1)
                           (\<lambda>_ fs2. andThen (unlink extractedPath fs2)
                                      (\<lambda>_ fs3. (Inr croppedPath, fs3))))
                else (Inr extractedPath, fs1))
               (\<lambda>processedPath fs3.
                  case captionsResult of
                    Some c \<Rightarrow>
                      if shouldBurnCaptions
                      then andThen (burnCaptions w now processedPath c outputPath fs3)
                             (\<lambda>_ fs4. unlink processedPath fs4)
                      else rename w processedPath outputPath fs3
                  | None \<Rightarrow> rename w processedPath outputPath fs3)))"

text \<open>
  \<open>createClip\<close>: the \<open>try\<close> block, and the \<open>catch\<close> block that removes both temporary
  files, ignoring the errors of the removal, and throws the error again.
\<close>

definition createClip ::
  "world \<Rightarrow> nat \<Rightarrow> nat \<Rightarrow> string \<Rightarrow> real \<Rightarrow> real \<Rightarrow> CaptionsResult option \<Rightarrow> string
     \<Rightarrow> CreateClipOptions option \<Rightarrow> files \<Rightarrow> (thrown + unit) \<times> files" where
  "createClip w timestamp now inputVideoPath startSeconds endSeconds captionsResult outputPath options fs =
     (let shouldCrop = (case options of None \<Rightarrow> True
                        | Some opts \<Rightarrow> (case opt_cropToVertical opts of None \<Rightarrow> True | Some b \<Rightarrow> b));
          shouldBurnCaptions = (case options of None \<Rightarrow> True
                        | Some opts \<Rightarrow> (case opt_burnCaptions opts of None \<Rightarrow> True | Some b \<Rightarrow> b))
      in case createClipSteps w timestamp now inputVideoPath startSeconds endSeconds captionsResult
                outputPath shouldCrop shouldBurnCaptions fs of
           (Inr u, fs') \<Rightarrow> (Inr u, fs')
         | (Inl error, fs') \<Rightarrow>
             (let fs1 = snd (unlink (extractedPathOf w timestamp) fs');
                  fs2 = snd (unlink (croppedPathOf w timestamp) fs1)
              in (Inl error, fs2)))"


section \<open>Example inputs and readings of the output\<close>

definition exampleHighlight :: "real \<Rightarrow> real \<Rightarrow> Highlight" where
  "exampleHighlight s e =
     \<lparr>title = ''clip'', description = [], Highlight.startTime = s, Highlight.endTime = e,
      hookText = [], score = 50, tags = []\<rparr>"

definition exampleHighlights :: "Highlight list \<Rightarrow> HighlightsResult" where
  "exampleHighlights hs = \<lparr>highlights = hs, summary = [], mainTopics = []\<rparr>"

definition exampleWord :: "string \<Rightarrow> real \<Rightarrow> real \<Rightarrow> WordTimestamp" where
  "exampleWord t s e = \<lparr>WordTimestamp.word = t, start = s, end' = e\<rparr>"

definition exampleCaptionWord :: "string \<Rightarrow> real \<Rightarrow> real \<Rightarrow> bool \<Rightarrow> CaptionWord" where
  "exampleCaptionWord t s e b =
     \<lparr>CaptionWord.word = t, CaptionWord.startTime = s, CaptionWord.endTime = e, emphasis = b\<rparr>"

definition exampleSegment :: "real \<Rightarrow> real \<Rightarrow> CaptionWord list \<Rightarrow> CaptionSegment" where
  "exampleSegment s e ws =
     \<lparr>CaptionSegment.startTime = s, CaptionSegment.endTime = e, words = ws,
      CaptionSegment.position = Bottom\<rparr>"

definition exampleStyle :: CaptionStyle where
  "exampleStyle = \<lparr>fontSize = 36, color = ''#FFFFFF'', highlightColor = ''#FFD700''\<rparr>"

definition exampleCaptions :: "CaptionSegment list \<Rightarrow> CaptionsResult" where
  "exampleCaptions segs = \<lparr>captions = segs, style = exampleStyle, hook = ''Hola esto''\<rparr>"

text \<open>The words and the two answers of the example in the prompt of \<open>generateCaptions\<close>.\<close>

definition holaWords :: "WordTimestamp list" where
  "holaWords = [exampleWord ''Hola'' (1 / 2) (4 / 5), exampleWord ''esto'' (4 / 5) (6 / 5),
                exampleWord ''es'' (6 / 5) (3 / 2), exampleWord ''importante'' (3 / 2) 2]"

definition holaCaptions :: CaptionsResult where
  "holaCaptions = exampleCaptions
     [exampleSegment (1 / 2) (6 / 5)
        [exampleCaptionWord ''Hola'' (1 / 2) (4 / 5) False,
         exampleCaptionWord ''esto'' (4 / 5) (6 / 5) False],
      exampleSegment (6 / 5) 2
        [exampleCaptionWord ''es'' (6 / 5) (3 / 2) False,
         exampleCaptionWord ''importante'' (3 / 2) 2 True]]"

definition bienvenidosCaptions :: CaptionsResult where
  "bienvenidosCaptions = exampleCaptions
     [exampleSegment (1 / 2) (6 / 5)
        [exampleCaptionWord ''Bienvenidos'' (1 / 2) (4 / 5) False,
         exampleCaptionWord ''esto'' (4 / 5) (6 / 5) False]]"

text \<open>
  The word \<open>arbol\<close>, written with the letter U+00E1, and the word \<open>hola\<close>, and an answer that writes the first in
  capital letters and puts a no-break space behind the second.
\<close>

definition arbolWords :: "WordTimestamp list" where
  "arbolWords = [exampleWord (CHR 0xE1 # ''rbol'') 0 (1 / 2), exampleWord ''hola'' (1 / 2) 1]"

definition arbolCaptions :: CaptionsResult where
  "arbolCaptions = exampleCaptions
     [exampleSegment 0 1
        [exampleCaptionWord (CHR 0xC1 # ''RBOL'') 0 (1 / 2) False,
         exampleCaptionWord (''hola'' @ [CHR 0xA0]) (1 / 2) 1 False]]"

text \<open>An answer whose only segment has one word, and the word counts of an answer.\<close>

definition singleWordCaptions :: CaptionsResult where
  "singleWordCaptions = exampleCaptions
     [exampleSegment (1 / 2) (4 / 5) [exampleCaptionWord ''Hola'' (1 / 2) (4 / 5) False]]"

definition segmentSizes :: "CaptionsResult \<Rightarrow> nat list" where
  "segmentSizes r = map (\<lambda>seg. length (words seg)) (captions r)"

text \<open>
  Two answers are equal except in their emphasis flags when they are equal once every
  flag is cleared.
\<close>

definition clearEmphasis :: "CaptionsResult \<Rightarrow> CaptionsResult" where
  "clearEmphasis r =
     r\<lparr>captions := map (\<lambda>seg. seg\<lparr>words := map (\<lambda>w. w\<lparr>emphasis := False\<rparr>) (words seg)\<rparr>)
                        (captions r)\<rparr>"



text \<open>The answer \<open>holaCaptions\<close> with every emphasis flag inverted.\<close>

definition holaCaptionsFlipped :: CaptionsResult where
  "holaCaptionsFlipped = exampleCaptions
     [exampleSegment (1 / 2) (6 / 5)
        [exampleCaptionWord ''Hola'' (1 / 2) (4 / 5) True,
         exampleCaptionWord ''esto'' (4 / 5) (6 / 5) True],
      exampleSegment (6 / 5) 2
        [exampleCaptionWord ''es'' (6 / 5) (3 / 2) True,
         exampleCaptionWord ''importante'' (3 / 2) 2 False]]"





text \<open>
  Reading a colour token back. \<open>decodeASSColor\<close> follows the byte order
  \<open>&HAABBGGRR\<close> that the comment of \<open>hexToASSColor\<close> documents and returns the
  alpha byte and the red, green and blue values; \<open>twoHex\<close> writes a byte with two
  upper-case hexadecimal digits.
\<close>

definition isHexDigit :: "char \<Rightarrow> bool" where
  "isHexDigit c = (c \<in> set ''0123456789abcdefABCDEF'')"

definition twoHex :: "nat \<Rightarrow> string" where
  "twoHex n = [toUpperChar (digitChar (n div 16)), toUpperChar (digitChar (n mod 16))]"

definition decodeASSColor :: "string \<Rightarrow> (nat \<times> nat \<times> nat \<times> nat) option" where
  "decodeASSColor token =
     (if length token = 10 \<and> take 2 token = ''&H'' \<and> list_all isHexDigit (drop 2 token)
      then Some (hexValue (substring token 2 4), hexValue (substring token 8 10),
                 hexValue (substring token 6 8), hexValue (substring token 4 6))
      else None)"

text \<open>
  Reading the subtitle text: \<open>splitOn\<close> cuts a text at every occurrence of a
  character, as \<open>String.prototype.split\<close> does, into its lines or into the fields of a
  line.
\<close>

fun splitOn :: "char \<Rightarrow> string \<Rightarrow> string list" where
  "splitOn c [] = [[]]"
| "splitOn c (x # xs) =
     (if x = c then [] # splitOn c xs
      else (case splitOn c xs of [] \<Rightarrow> [[x]] | l # ls \<Rightarrow> (x # l) # ls))"

text \<open>
  The bottom margin as the specification computes it: a quarter of the reference height.
\<close>

definition specMarginV :: "real \<Rightarrow> real" where
  "specMarginV referenceHeight = referenceHeight * (25 / 100)"

text \<open>
  Worlds for the examples: one in which every run of the engine ends, and one in which
  the crop run fails and leaves a partial output file behind.
\<close>

definition exampleWorld :: "stream list \<Rightarrow> world" where
  "exampleWorld streams =
     \<lparr>tmpdir = ''/tmp'', ffprobe = (\<lambda>_. Inr streams), ffmpeg = (\<lambda>_. End),
      writeFileError = (\<lambda>_. None), renameError = (\<lambda>_ _. None)\<rparr>"

definition cropFailWorld :: world where
  "cropFailWorld =
     \<lparr>tmpdir = ''/tmp'',
      ffprobe = (\<lambda>_. Inr [\<lparr>codec_type = ''video'', stream.width = Some 1920,
                               stream.height = Some 1080\<rparr>]),
      ffmpeg = (\<lambda>cmd. case cmd of FilterCmd _ _ _ \<Rightarrow> Failure ''crop failed'' True | _ \<Rightarrow> End),
      writeFileError = (\<lambda>_. None), renameError = (\<lambda>_ _. None)\<rparr>"

definition videoStreamOf :: "int \<Rightarrow> int \<Rightarrow> stream list" where
  "videoStreamOf sw sh =
     [\<lparr>codec_type = ''audio'', stream.width = None, stream.height = None\<rparr>,
      \<lparr>codec_type = ''video'', stream.width = Some sw, stream.height = Some sh\<rparr>]"

section \<open>Properties of the numbers\<close>

text \<open>
  The exponent brackets a positive number between two powers of two. \<open>toDouble\<close> is
  monotone, commutes with the sign, is the identity on every number of the form
  \<open>n * 2 powi k\<close> with \<open>\<bar>n\<bar> \<le> 2 ^ 53\<close> and \<open>-1074 \<le> k\<close>, returns only such numbers, and so
  is idempotent.
\<close>

lemma exponentOf_bounds:
  assumes "0 < x"
  shows "2 powi exponentOf x \<le> x" and "x < 2 powi (exponentOf x + 1)"
proof -
  have "2 powi exponentOf x \<le> x \<and> x < 2 powi (exponentOf x + 1)"
  proof (cases "1 \<le> x")
    case True
    then have p: "0 < \<lfloor>x\<rfloor>" by simp
    have e: "exponentOf x = bitlen \<lfloor>x\<rfloor> - 1" using True by (simp add: exponentOf_def)
    have b1: "0 < bitlen \<lfloor>x\<rfloor>" using p bitlen_eq_zero_iff [of "\<lfloor>x\<rfloor>"] bitlen_nonneg [of "\<lfloor>x\<rfloor>"] by linarith
    from bitlen_bounds [OF p]
    have lo: "(2::int) ^ nat (bitlen \<lfloor>x\<rfloor> - 1) \<le> \<lfloor>x\<rfloor>" and hi: "\<lfloor>x\<rfloor> < 2 ^ nat (bitlen \<lfloor>x\<rfloor>)" by simp_all
    have "(2::real) powi (bitlen \<lfloor>x\<rfloor> - 1) = 2 ^ nat (bitlen \<lfloor>x\<rfloor> - 1)"
      using b1 by (simp add: power_int_def)
    also have "\<dots> = of_int (2 ^ nat (bitlen \<lfloor>x\<rfloor> - 1))" by simp
    also have "\<dots> \<le> of_int \<lfloor>x\<rfloor>" using lo by (simp only: of_int_le_iff)
    also have "\<dots> \<le> x" by simp
    finally have A: "2 powi exponentOf x \<le> x" by (simp add: e)
    have "\<lfloor>x\<rfloor> + 1 \<le> 2 ^ nat (bitlen \<lfloor>x\<rfloor>)" using hi by simp
    then have "of_int (\<lfloor>x\<rfloor> + 1) \<le> (of_int (2 ^ nat (bitlen \<lfloor>x\<rfloor>)) :: real)"
      by (simp only: of_int_le_iff)
    moreover have "x < of_int (\<lfloor>x\<rfloor> + 1)" by simp
    ultimately have "x < of_int (2 ^ nat (bitlen \<lfloor>x\<rfloor>))" by (rule less_le_trans [rotated])
    then have "x < 2 ^ nat (bitlen \<lfloor>x\<rfloor>)" by simp
    moreover have "(2::real) powi (bitlen \<lfloor>x\<rfloor>) = 2 ^ nat (bitlen \<lfloor>x\<rfloor>)"
      using b1 by (simp add: power_int_def)
    ultimately have "x < 2 powi (exponentOf x + 1)" by (simp add: e)
    with A show ?thesis by simp
  next
    case False
    define y where "y = 1 / x"
    define c where "c = \<lceil>y\<rceil> - 1"
    define b where "b = bitlen c"
    have y1: "1 < y" using False assms by (simp add: y_def)
    then have "2 \<le> \<lceil>y\<rceil>" by linarith
    then have c: "0 < c" by (simp add: c_def)
    have cy: "of_int c < y" "y \<le> of_int c + 1" unfolding c_def by linarith+
    have e: "exponentOf x = - b" using False by (simp add: exponentOf_def b_def c_def y_def)
    have b1: "0 < b" using c bitlen_eq_zero_iff [of c] bitlen_nonneg [of c] unfolding b_def by linarith
    from bitlen_bounds [OF c]
    have lo: "(2::int) ^ nat (b - 1) \<le> c" and hi: "c < 2 ^ nat b" by (simp_all add: b_def)
    have "(of_int (2 ^ nat (b - 1)) :: real) \<le> of_int c" using lo by (simp only: of_int_le_iff)
    then have "(of_int (2 ^ nat (b - 1)) :: real) < y" using cy(1) by (rule le_less_trans)
    then have l: "(2::real) ^ nat (b - 1) < y" by simp
    have "c + 1 \<le> 2 ^ nat b" using hi by simp
    then have "(of_int (c + 1) :: real) \<le> of_int (2 ^ nat b)" by (simp only: of_int_le_iff)
    moreover have "y \<le> of_int (c + 1)" using cy(2) by simp
    ultimately have "y \<le> of_int (2 ^ nat b)" by (rule order_trans [rotated])
    then have h: "y \<le> 2 ^ nat b" by simp
    have x: "x = 1 / y" using assms by (simp add: y_def)
    have ypos: "0 < y" using y1 by simp
    have "1 / (2::real) ^ nat b \<le> 1 / y"
      using h ypos by (simp add: frac_le)
    moreover have "(2::real) powi (- b) = 1 / 2 ^ nat b"
      using b1 by (simp add: power_int_def field_simps)
    ultimately have "2 powi (- b) \<le> 1 / y" by simp
    then have "2 powi (- b) \<le> x" by (simp only: x)
    then have A: "2 powi exponentOf x \<le> x" by (simp only: e)
    have "1 / y < 1 / (2::real) ^ nat (b - 1)"
      using l by (simp add: frac_less2)
    moreover have "(2::real) powi (- b + 1) = 1 / 2 ^ nat (b - 1)"
    proof -
      have "- b + 1 = - (b - 1)" by simp
      then have "(2::real) powi (- b + 1) = inverse (2 powi (b - 1))"
        by (simp only: power_int_minus)
      also have "(2::real) powi (b - 1) = 2 ^ nat (b - 1)"
        using b1 by (simp add: power_int_def)
      finally show ?thesis by (simp add: field_simps)
    qed
    ultimately have "1 / y < 2 powi (- b + 1)" by simp
    then have "x < 2 powi (- b + 1)" by (simp only: x)
    then have "x < 2 powi (exponentOf x + 1)" by (simp only: e)
    with A show ?thesis by simp
  qed
  then show "2 powi exponentOf x \<le> x" and "x < 2 powi (exponentOf x + 1)" by simp_all
qed

lemma exponentOf_ge:
  assumes "2 powi j \<le> x"
  shows "j \<le> exponentOf x"
proof -
  have "0 < x" using assms zero_less_power_int [of "2::real" j] by linarith
  then have "x < 2 powi (exponentOf x + 1)" by (rule exponentOf_bounds)
  with assms have "(2::real) powi j < 2 powi (exponentOf x + 1)" by linarith
  then have "j < exponentOf x + 1"
    using power_int_increasing [of "exponentOf x + 1" j "2::real"] by (cases "j < exponentOf x + 1") auto
  then show ?thesis by simp
qed

lemma exponentOf_less:
  assumes "0 < x" and "x < 2 powi j"
  shows "exponentOf x < j"
proof -
  have "2 powi exponentOf x \<le> x" using assms(1) by (rule exponentOf_bounds)
  with assms have "(2::real) powi exponentOf x < 2 powi j" by linarith
  then show ?thesis
    using power_int_increasing [of j "exponentOf x" "2::real"] by (cases "exponentOf x < j") auto
qed

lemma roundHalfEven_int [simp]: "roundHalfEven (of_int n) = n"
  by (simp add: roundHalfEven_def)

lemma roundHalfEven_le:
  assumes "z \<le> of_int n"
  shows "roundHalfEven z \<le> n"
proof (cases "z = of_int n")
  case True then show ?thesis by simp
next
  case False
  then have "z < of_int n" using assms by simp
  then have "\<lfloor>z\<rfloor> < n" by (simp add: floor_less_iff)
  then show ?thesis by (simp add: roundHalfEven_def Let_def)
qed

lemma roundHalfEven_ge:
  assumes "of_int n \<le> z"
  shows "n \<le> roundHalfEven z"
proof -
  have "n \<le> \<lfloor>z\<rfloor>" using assms by (simp add: le_floor_iff)
  then show ?thesis by (simp add: roundHalfEven_def Let_def)
qed

lemma roundHalfEven_mono:
  assumes "z \<le> z'"
  shows "roundHalfEven z \<le> roundHalfEven z'"
proof (cases "\<lfloor>z\<rfloor> = \<lfloor>z'\<rfloor>")
  case True
  then show ?thesis using assms by (simp add: roundHalfEven_def Let_def)
next
  case False
  then have "\<lfloor>z\<rfloor> < \<lfloor>z'\<rfloor>" using floor_mono [OF assms] by simp
  then have "\<lfloor>z\<rfloor> + 1 \<le> \<lfloor>z'\<rfloor>" by simp
  then have "z \<le> of_int \<lfloor>z'\<rfloor>"
    by (metis le_floor_iff order.trans less_imp_le floor_less_iff zless_add1_eq not_le)
  then have "roundHalfEven z \<le> \<lfloor>z'\<rfloor>" by (rule roundHalfEven_le)
  moreover have "\<lfloor>z'\<rfloor> \<le> roundHalfEven z'" by (rule roundHalfEven_ge) simp
  ultimately show ?thesis by simp
qed

lemma roundHalfEven_near:
  "\<bar>of_int (roundHalfEven z) - z\<bar> \<le> 1 / 2"
  by (simp add: roundHalfEven_def Let_def)

lemma roundHalfEven_minus: "roundHalfEven (- z) = - roundHalfEven z"
proof (cases "z = of_int \<lfloor>z\<rfloor>")
  case True
  then obtain n where "z = of_int n" ..
  then have "- z = of_int (- n)" by simp
  then show ?thesis using \<open>z = of_int n\<close> by (simp only: roundHalfEven_int)
next
  case False
  then have f: "\<lfloor>- z\<rfloor> = - \<lfloor>z\<rfloor> - 1"
    by (metis ceiling_altdef ceiling_def add_diff_cancel_right' minus_add_cancel uminus_add_conv_diff)
  have d: "of_int \<lfloor>z\<rfloor> < z" using False by (metis of_int_floor_le order.not_eq_order_implies_strict)
  show ?thesis
    using d by (auto simp add: roundHalfEven_def Let_def f)
qed


lemma powi_split: "(2::real) powi (a + b) = 2 powi a * 2 powi b"
  by (simp add: power_int_add)

lemma powi_nat: "0 \<le> k \<Longrightarrow> (2::real) powi k = of_int (2 ^ nat k)"
  by (simp add: power_int_def)

lemma powi_le: "a \<le> b \<Longrightarrow> (2::real) powi a \<le> 2 powi b"
  by (simp add: power_int_increasing)

lemma toDouble_pos:
  assumes "0 < x"
  shows "toDouble x
           = of_int (roundHalfEven (x / 2 powi (max (exponentOf x) (- 1022) - 52)))
               * 2 powi (max (exponentOf x) (- 1022) - 52)"
  using assms by (simp add: toDouble_def Let_def)

lemma toDouble_0 [simp]: "toDouble 0 = 0"
  by (simp add: toDouble_def)

lemma toDouble_minus: "toDouble (- x) = - toDouble x"
  by (simp add: toDouble_def Let_def roundHalfEven_minus)

lemma toDouble_nonneg:
  assumes "0 \<le> x"
  shows "0 \<le> toDouble x"
proof (cases "x = 0")
  case True then show ?thesis by simp
next
  case False
  then have x: "0 < x" using assms by simp
  let ?u = "(2::real) powi (max (exponentOf x) (- 1022) - 52)"
  have "of_int 0 \<le> x / ?u" using x by simp
  then have "0 \<le> roundHalfEven (x / ?u)" by (rule roundHalfEven_ge)
  then show ?thesis by (simp add: toDouble_pos [OF x])
qed

lemma toDouble_le_powi:
  assumes "0 < x" and "x \<le> 2 powi j" and "- 1074 \<le> j"
  shows "toDouble x \<le> 2 powi j"
proof -
  let ?k = "max (exponentOf x) (- 1022) - 52"
  let ?u = "(2::real) powi ?k"
  have "2 powi exponentOf x \<le> x" using assms(1) by (rule exponentOf_bounds)
  then have "(2::real) powi exponentOf x \<le> 2 powi j" using assms(2) by linarith
  then have "exponentOf x \<le> j"
    using power_int_strict_increasing [of j "exponentOf x" "2::real"]
    by (cases "exponentOf x \<le> j") auto
  then have kj: "?k \<le> j" using assms(3) by simp
  have j: "(2::real) powi j = 2 powi (j - ?k) * ?u"
    using powi_split [of "j - ?k" ?k] by simp
  have "x / ?u \<le> 2 powi (j - ?k)"
    using assms(2) by (simp add: j pos_divide_le_eq)
  also have "\<dots> = of_int (2 ^ nat (j - ?k))" using kj by (simp add: powi_nat)
  finally have "roundHalfEven (x / ?u) \<le> 2 ^ nat (j - ?k)" by (rule roundHalfEven_le)
  then have "(of_int (roundHalfEven (x / ?u)) :: real) \<le> of_int (2 ^ nat (j - ?k))"
    by (simp only: of_int_le_iff)
  also have "\<dots> = 2 powi (j - ?k)" using kj by (simp add: powi_nat)
  finally have "of_int (roundHalfEven (x / ?u)) * ?u \<le> 2 powi (j - ?k) * ?u"
    by (simp add: mult_right_mono)
  then show ?thesis by (simp only: toDouble_pos [OF assms(1)] j)
qed

lemma toDouble_ge_normal:
  assumes "0 < x" and "- 1022 \<le> exponentOf x"
  shows "2 powi exponentOf x \<le> toDouble x"
proof -
  let ?e = "exponentOf x"
  let ?u = "(2::real) powi (?e - 52)"
  have m: "max ?e (- 1022) = ?e" using assms(2) by simp
  have e: "(2::real) powi ?e = 2 powi 52 * ?u"
    using powi_split [of 52 "?e - 52"] by simp
  have "2 powi ?e \<le> x" using assms(1) by (rule exponentOf_bounds)
  then have "2 powi 52 \<le> x / ?u" by (simp add: e pos_le_divide_eq)
  moreover have "(2::real) powi 52 = of_int (2 ^ 52)" by (simp add: power_int_def)
  ultimately have "of_int (2 ^ 52) \<le> x / ?u" by simp
  then have "2 ^ 52 \<le> roundHalfEven (x / ?u)" by (rule roundHalfEven_ge)
  then have "(of_int (2 ^ 52) :: real) \<le> of_int (roundHalfEven (x / ?u))"
    by (simp only: of_int_le_iff)
  then have "2 powi 52 * ?u \<le> of_int (roundHalfEven (x / ?u)) * ?u"
    by (simp add: mult_right_mono power_int_def)
  then show ?thesis by (simp only: toDouble_pos [OF assms(1)] m e)
qed

lemma toDouble_mono_pos:
  assumes "0 < x" and "x \<le> y"
  shows "toDouble x \<le> toDouble y"
proof -
  have y: "0 < y" using assms by simp
  let ?ex = "max (exponentOf x) (- 1022)"
  let ?ey = "max (exponentOf y) (- 1022)"
  have "2 powi exponentOf x \<le> x" using assms(1) by (rule exponentOf_bounds)
  then have "2 powi exponentOf x \<le> y" using assms(2) by simp
  then have exy: "exponentOf x \<le> exponentOf y" by (rule exponentOf_ge)
  then have le: "?ex \<le> ?ey" by simp
  show ?thesis
  proof (cases "?ex = ?ey")
    case True
    let ?u = "(2::real) powi (?ey - 52)"
    have "x / ?u \<le> y / ?u" using assms(2) by (simp add: divide_right_mono)
    then have "roundHalfEven (x / ?u) \<le> roundHalfEven (y / ?u)" by (rule roundHalfEven_mono)
    then have "(of_int (roundHalfEven (x / ?u)) :: real) \<le> of_int (roundHalfEven (y / ?u))"
      by (simp only: of_int_le_iff)
    then have "of_int (roundHalfEven (x / ?u)) * ?u \<le> of_int (roundHalfEven (y / ?u)) * ?u"
      by (simp add: mult_right_mono)
    then show ?thesis by (simp only: toDouble_pos [OF assms(1)] toDouble_pos [OF y] True)
  next
    case False
    then have lt: "?ex < ?ey" using le by linarith
    then have n: "- 1022 \<le> exponentOf y" and ey: "?ey = exponentOf y"
      by (simp_all add: max_def split: if_splits)
    have "x < 2 powi (exponentOf x + 1)" using assms(1) by (rule exponentOf_bounds)
    also have "\<dots> \<le> 2 powi (?ex + 1)" by (rule powi_le) simp
    finally have "x \<le> 2 powi (?ex + 1)" by simp
    then have "toDouble x \<le> 2 powi (?ex + 1)"
      by (rule toDouble_le_powi [OF assms(1)]) simp
    also have "\<dots> \<le> 2 powi exponentOf y" using lt ey by (intro powi_le) linarith
    also have "\<dots> \<le> toDouble y" using y n by (rule toDouble_ge_normal)
    finally show ?thesis .
  qed
qed

lemma toDouble_mono:
  assumes "x \<le> y"
  shows "toDouble x \<le> toDouble y"
proof -
  consider "0 < x" | "x = 0" | "x < 0" "0 \<le> y" | "x < 0" "y < 0" by linarith
  then show ?thesis
  proof cases
    case 1 then show ?thesis using assms by (rule toDouble_mono_pos)
  next
    case 2
    then have "0 \<le> y" using assms by simp
    then show ?thesis using 2 by (simp add: toDouble_nonneg)
  next
    case 3
    have "0 \<le> toDouble (- x)" using 3 by (intro toDouble_nonneg) simp
    then have "toDouble x \<le> 0" using toDouble_minus [of x] by simp
    moreover have "0 \<le> toDouble y" using 3 by (intro toDouble_nonneg)
    ultimately show ?thesis by simp
  next
    case 4
    have "toDouble (- y) \<le> toDouble (- x)" using 4 assms by (intro toDouble_mono_pos) simp_all
    then show ?thesis by (simp add: toDouble_minus)
  qed
qed


lemma exponentOf_powi: "exponentOf (2 powi j) = j"
proof -
  have "j \<le> exponentOf (2 powi j)" by (rule exponentOf_ge) simp
  moreover have "2 powi exponentOf (2 powi j) \<le> (2::real) powi j"
    by (rule exponentOf_bounds) simp
  then have "exponentOf (2 powi j) \<le> j"
    using power_int_strict_increasing [of j "exponentOf (2 powi j)" "2::real"]
    by (cases "exponentOf (2 powi j) \<le> j") auto
  ultimately show ?thesis by simp
qed

lemma powi_of_int: "(2::real) powi int m = of_int (2 ^ m)"
  by (simp add: power_int_def)

lemma powi_plus: "(2::real) powi (int m + k) = of_int (2 ^ m) * 2 powi k"
  by (simp only: powi_split powi_of_int)

lemma toDouble_representable_less:
  assumes "0 < n" and "n < 2 ^ 53" and "- 1074 \<le> k"
  shows "toDouble (of_int n * 2 powi k) = of_int n * 2 powi k"
proof -
  let ?s = "of_int n * (2::real) powi k"
  let ?ks = "max (exponentOf ?s) (- 1022) - 52"
  have s: "0 < ?s" using assms(1) by simp
  have "(of_int n :: real) < of_int (2 ^ 53)" using assms(2) by (simp only: of_int_less_iff)
  then have "?s < of_int (2 ^ 53) * 2 powi k" by (simp add: mult_strict_right_mono)
  also have "\<dots> = 2 powi (53 + k)" using powi_plus [of 53 k] by simp
  finally have "exponentOf ?s < 53 + k" by (rule exponentOf_less [OF s])
  then have kk: "?ks \<le> k" using assms(3) by simp
  have "(2::real) powi k = 2 powi (k - ?ks) * 2 powi ?ks"
    using powi_split [of "k - ?ks" ?ks] by simp
  also have "(2::real) powi (k - ?ks) = of_int (2 ^ nat (k - ?ks))" using kk by (simp add: powi_nat)
  finally have k: "(2::real) powi k = of_int (2 ^ nat (k - ?ks)) * 2 powi ?ks" .
  have "?s / 2 powi ?ks = of_int n * of_int (2 ^ nat (k - ?ks))"
    by (subst k) simp
  also have "\<dots> = of_int (n * 2 ^ nat (k - ?ks))" by simp
  finally have "roundHalfEven (?s / 2 powi ?ks) = n * 2 ^ nat (k - ?ks)"
    by (simp only: roundHalfEven_int)
  then have "toDouble ?s = of_int (n * 2 ^ nat (k - ?ks)) * 2 powi ?ks"
    by (simp only: toDouble_pos [OF s])
  also have "\<dots> = of_int n * (of_int (2 ^ nat (k - ?ks)) * 2 powi ?ks)" by simp
  also have "\<dots> = ?s" by (simp only: k [symmetric])
  finally show ?thesis .
qed

lemma toDouble_representable:
  assumes "0 \<le> n" and "n \<le> 2 ^ 53" and "- 1074 \<le> k"
  shows "toDouble (of_int n * 2 powi k) = of_int n * 2 powi k"
proof -
  consider "n = 0" | "0 < n" "n < 2 ^ 53" | "n = 2 ^ 53" using assms by linarith
  then show ?thesis
  proof cases
    case 1 then show ?thesis by simp
  next
    case 2 then show ?thesis using assms(3) by (rule toDouble_representable_less)
  next
    case 3
    have "of_int n * (2::real) powi k = of_int (2 ^ 52) * 2 powi (k + 1)"
      by (simp add: 3 powi_split)
    moreover have "toDouble (of_int (2 ^ 52) * 2 powi (k + 1)) = of_int (2 ^ 52) * 2 powi (k + 1)"
      using assms(3) by (intro toDouble_representable_less) simp_all
    ultimately show ?thesis by simp
  qed
qed

lemma toDouble_mantissa:
  assumes "0 < x"
  shows "roundHalfEven (x / 2 powi (max (exponentOf x) (- 1022) - 52)) \<le> 2 ^ 53"
proof -
  let ?e = "max (exponentOf x) (- 1022)"
  have "x < 2 powi (exponentOf x + 1)" using assms by (rule exponentOf_bounds)
  also have "\<dots> \<le> 2 powi (?e + 1)" by (rule powi_le) simp
  also have "?e + 1 = int 53 + (?e - 52)" by simp
  also have "2 powi (int 53 + (?e - 52)) = of_int (2 ^ 53) * (2::real) powi (?e - 52)"
    by (rule powi_plus)
  finally have "x / 2 powi (?e - 52) \<le> of_int (2 ^ 53)" by (simp add: pos_divide_le_eq)
  then show ?thesis by (rule roundHalfEven_le)
qed

lemma toDouble_idem: "toDouble (toDouble x) = toDouble x"
proof -
  have pos: "toDouble (toDouble x) = toDouble x" if x: "0 < x" for x
  proof -
    let ?e = "max (exponentOf x) (- 1022)"
    let ?n = "roundHalfEven (x / 2 powi (?e - 52))"
    have "of_int 0 \<le> x / 2 powi (?e - 52)" using x by simp
    then have "0 \<le> ?n" by (rule roundHalfEven_ge)
    moreover have "?n \<le> 2 ^ 53" using x by (rule toDouble_mantissa)
    moreover have "- 1074 \<le> ?e - 52" by simp
    ultimately have "toDouble (of_int ?n * 2 powi (?e - 52)) = of_int ?n * 2 powi (?e - 52)"
      by (rule toDouble_representable)
    then show ?thesis by (simp only: toDouble_pos [OF x])
  qed
  consider "0 < x" | "x = 0" | "x < 0" by linarith
  then show ?thesis
  proof cases
    case 1 then show ?thesis by (rule pos)
  next
    case 2 then show ?thesis by simp
  next
    case 3
    then have "toDouble (toDouble (- x)) = toDouble (- x)" by (intro pos) simp
    then show ?thesis by (simp add: toDouble_minus)
  qed
qed



text \<open>
  The double of 0.1 lies above 0.1 and the double of 1.2 below 1.2; the difference of
  the doubles of 15.1 and 0.1 is rounded to 15; a number half way between two doubles
  goes to the one with the even significand.
\<close>

lemma toDouble_examples:
  "toDouble (1 / 10) = 3602879701896397 / 2 ^ 55"
  "toDouble (6 / 5) = 5404319552844595 / 2 ^ 52"
  "toDouble (toDouble (151 / 10) - toDouble (1 / 10)) = 15"
  "toDouble (1 + 1 / 2 ^ 53) = 1"
  "toDouble (1 + 3 / 2 ^ 53) = 1 + 1 / 2 ^ 51"
  by code_simp+

section \<open>Properties of highlight detection\<close>

lemma slice_0_nonneg: "0 \<le> n \<Longrightarrow> slice xs 0 n = take (nat n) xs"
  by (simp add: slice_def Let_def min_def)

lemma slice_Nil: "slice [] a b = []"
  by (simp add: slice_def Let_def)

text \<open>
  C2, as amended. When the external model returns a list of candidates and
  \<open>maxHighlights\<close> is not negative, the highlights of the result are the first
  \<open>maxHighlights\<close> elements of the candidates whose duration lies in
  \<open>[minDuration, maxDuration]\<close>, both ends included, in the order the model gave them;
  the rest of the answer is returned as it came. The duration of a candidate is the
  difference \<open>endTime - startTime\<close> of the two doubles rounded to a double, as the code
  computes it; a candidate whose exact difference lies in the interval is kept. The
  defaults are 5, 15 and 60.
\<close>

theorem detectHighlights_filter_then_truncate:
  assumes "generateObject calls = Inr object" and "0 \<le> maxHighlightsOf options"
  shows "fst (detectHighlights True generateObject calls options)
           = Inr (object\<lparr>highlights :=
                    take (nat (maxHighlightsOf options))
                      (filter (isValid (minDurationOf options) (maxDurationOf options))
                              (highlights object))\<rparr>)
         \<and> (isValid minD maxD h \<longleftrightarrow>
               toDouble minD
                 \<le> toDouble (toDouble (Highlight.endTime h) - toDouble (Highlight.startTime h))
               \<and> toDouble (toDouble (Highlight.endTime h) - toDouble (Highlight.startTime h))
                 \<le> toDouble maxD)
         \<and> (toDouble minD \<le> toDouble (Highlight.endTime h) - toDouble (Highlight.startTime h)
              \<and> toDouble (Highlight.endTime h) - toDouble (Highlight.startTime h) \<le> toDouble maxD
            \<longrightarrow> isValid minD maxD h)
         \<and> maxHighlightsOf None = 5 \<and> minDurationOf None = 15 \<and> maxDurationOf None = 60"
proof (intro conjI impI)
  show "fst (detectHighlights True generateObject calls options)
           = Inr (object\<lparr>highlights :=
                    take (nat (maxHighlightsOf options))
                      (filter (isValid (minDurationOf options) (maxDurationOf options))
                              (highlights object))\<rparr>)"
    using assms
    by (simp add: detectHighlights_def checkAIConfiguration_def slice_0_nonneg Let_def)
next
  show "isValid minD maxD h \<longleftrightarrow>
               toDouble minD
                 \<le> toDouble (toDouble (Highlight.endTime h) - toDouble (Highlight.startTime h))
               \<and> toDouble (toDouble (Highlight.endTime h) - toDouble (Highlight.startTime h))
                 \<le> toDouble maxD"
    by (simp add: isValid_def Let_def)
next
  let ?d = "toDouble (Highlight.endTime h) - toDouble (Highlight.startTime h)"
  assume a: "toDouble minD \<le> ?d \<and> ?d \<le> toDouble maxD"
  have "toDouble (toDouble minD) \<le> toDouble ?d" using a by (intro toDouble_mono) simp
  moreover have "toDouble ?d \<le> toDouble (toDouble maxD)" using a by (intro toDouble_mono) simp
  ultimately show "isValid minD maxD h"
    by (simp add: isValid_def Let_def toDouble_idem)
next
  show "maxHighlightsOf None = 5" by (simp add: maxHighlightsOf_def)
next
  show "minDurationOf None = 15" by (simp add: minDurationOf_def)
next
  show "maxDurationOf None = 60" by (simp add: maxDurationOf_def)
qed

text \<open>
  With the default constraints, of three candidates that span 1.5, 25 and 61 seconds
  only the one of 25 seconds is returned. At the ends of the interval the rounded
  difference decides: the candidate from 0.1 to 15.1 has the duration 15 and is kept,
  the candidates from 1.4 to 16.4 and from 4.4 to 64.4 have durations just below 15 and
  just above 60 and are dropped.
\<close>

theorem detectHighlights_filter_then_truncate_witness:
  "fst (detectHighlights True
          (\<lambda>_. Inr (exampleHighlights
                  [exampleHighlight 10 (23 / 2), exampleHighlight 15 40, exampleHighlight 0 61]))
          0 None)
     = Inr (exampleHighlights [exampleHighlight 15 40])
   \<and> isValid 15 60 (exampleHighlight (1 / 10) (151 / 10))
   \<and> \<not> isValid 15 60 (exampleHighlight (7 / 5) (82 / 5))
   \<and> \<not> isValid 15 60 (exampleHighlight (22 / 5) (322 / 5))"
proof -
  let ?obj = "exampleHighlights
                  [exampleHighlight 10 (23 / 2), exampleHighlight 15 40, exampleHighlight 0 61]"
  have a: "(\<lambda>_::nat. Inr ?obj :: thrown + HighlightsResult) 0 = Inr ?obj" by simp
  have b: "0 \<le> maxHighlightsOf None" by (simp add: maxHighlightsOf_def)
  note inst = detectHighlights_filter_then_truncate
                [OF a b, where minD = 15 and maxD = 60 and h = "exampleHighlight 15 40"]
  have in_range:
    "toDouble 15 \<le> toDouble (Highlight.endTime (exampleHighlight 15 40))
                      - toDouble (Highlight.startTime (exampleHighlight 15 40))
     \<and> toDouble (Highlight.endTime (exampleHighlight 15 40))
           - toDouble (Highlight.startTime (exampleHighlight 15 40)) \<le> toDouble 60"
    by code_simp
  have kept: "isValid 15 60 (exampleHighlight 15 40)"
    by (rule inst [THEN conjunct2, THEN conjunct2, THEN conjunct1, THEN mp, OF in_range])
  have short: "\<not> isValid 15 60 (exampleHighlight 10 (23 / 2))" by code_simp
  have long: "\<not> isValid 15 60 (exampleHighlight 0 61)" by code_simp
  have c: "fst (detectHighlights True (\<lambda>_. Inr ?obj) 0 None)
             = Inr (exampleHighlights [exampleHighlight 15 40])"
    using inst [THEN conjunct1] kept short long
    by (simp add: exampleHighlights_def maxHighlightsOf_def minDurationOf_def maxDurationOf_def)
  have d: "isValid 15 60 (exampleHighlight (1 / 10) (151 / 10))" by code_simp
  have e: "\<not> isValid 15 60 (exampleHighlight (7 / 5) (82 / 5))" by code_simp
  have f: "\<not> isValid 15 60 (exampleHighlight (22 / 5) (322 / 5))" by code_simp
  from c d e f show ?thesis by (intro conjI)
qed

text \<open>
  With \<open>maxHighlights = -1\<close> and two candidates inside the bounds, \<open>slice(0, -1)\<close> drops
  the last candidate and returns the first, where the first \<open>-1\<close> elements of a list are
  none.
\<close>

theorem detectHighlights_negative_maxHighlights_counterexample:
  "fst (detectHighlights True
          (\<lambda>_. Inr (exampleHighlights [exampleHighlight 15 40, exampleHighlight 50 80]))
          0 (Some \<lparr>maxHighlights = Some (- 1), minDuration = None, maxDuration = None,
                   targetAudience = None, contentType = None\<rparr>))
     = Inr (exampleHighlights [exampleHighlight 15 40])
   \<and> take (nat (- 1)) (filter (isValid 15 60) [exampleHighlight 15 40, exampleHighlight 50 80]) = []
   \<and> fst (detectHighlights True
          (\<lambda>_. Inr (exampleHighlights [exampleHighlight 15 40, exampleHighlight 50 80]))
          0 (Some \<lparr>maxHighlights = Some (- 1), minDuration = None, maxDuration = None,
                   targetAudience = None, contentType = None\<rparr>))
     \<noteq> Inr (exampleHighlights
              (take (nat (- 1))
                 (filter (isValid 15 60) [exampleHighlight 15 40, exampleHighlight 50 80])))"
proof -
  have k1: "isValid 15 60 (exampleHighlight 15 40)" by code_simp
  have k2: "isValid 15 60 (exampleHighlight 50 80)" by code_simp
  show ?thesis
    using k1 k2
    by (simp add: detectHighlights_def checkAIConfiguration_def slice_def
          maxHighlightsOf_def minDurationOf_def maxDurationOf_def exampleHighlights_def)
qed

text \<open>
  C8. \<open>detectHighlights\<close> throws the error \<open>Failed to detect highlights: cause\<close> exactly
  when the service is configured and the request to the external model throws, and
  \<open>cause\<close> is then the message of what the request threw. A configured call makes
  exactly one request, whatever its outcome, and an unconfigured call makes none. When
  the request returns candidates and none of them passes the duration filter, the call
  returns the answer with an empty list of highlights.
\<close>

theorem detectHighlights_failure:
  "((\<exists>cause. fst (detectHighlights isAvailable generateObject calls options)
               = Inl (Error (''Failed to detect highlights: '' @ cause)))
      \<longleftrightarrow> isAvailable \<and> (\<exists>e. generateObject calls = Inl e))
   \<and> (isAvailable \<and> generateObject calls = Inl e \<longrightarrow>
        fst (detectHighlights isAvailable generateObject calls options)
          = Inl (Error (''Failed to detect highlights: '' @ errorMessage e)))
   \<and> snd (detectHighlights isAvailable generateObject calls options)
        = (if isAvailable then Suc calls else calls)
   \<and> (isAvailable \<and> generateObject calls = Inr object
        \<and> filter (isValid (minDurationOf options) (maxDurationOf options)) (highlights object) = []
      \<longrightarrow> fst (detectHighlights isAvailable generateObject calls options)
            = Inr (object\<lparr>highlights := []\<rparr>))"
  by (cases "generateObject calls")
     (auto simp add: detectHighlights_def checkAIConfiguration_def slice_Nil)

theorem detectHighlights_failure_witness:
  "fst (detectHighlights True (\<lambda>_. Inl (Error ''rate limit'')) 0 None)
     = Inl (Error ''Failed to detect highlights: rate limit'')
   \<and> snd (detectHighlights True (\<lambda>_. Inl (Error ''rate limit'')) 0 None) = 1
   \<and> fst (detectHighlights True (\<lambda>_. Inr (exampleHighlights [exampleHighlight 10 (23 / 2)])) 0 None)
     = Inr (exampleHighlights [])"
proof -
  have a: "fst (detectHighlights True (\<lambda>_. Inl (Error ''rate limit'')) 0 None)
     = Inl (Error ''Failed to detect highlights: rate limit'')
   \<and> snd (detectHighlights True (\<lambda>_. Inl (Error ''rate limit'')) 0 None) = 1"
    using detectHighlights_failure
            [of True "\<lambda>_. Inl (Error ''rate limit'')" 0 None "Error ''rate limit''"]
    by (simp add: errorMessage_def)
  have short: "\<not> isValid 15 60 (exampleHighlight 10 (23 / 2))" by code_simp
  have b: "fst (detectHighlights True
                  (\<lambda>_. Inr (exampleHighlights [exampleHighlight 10 (23 / 2)])) 0 None)
     = Inr (exampleHighlights [])"
    using detectHighlights_failure
            [of True "\<lambda>_. Inr (exampleHighlights [exampleHighlight 10 (23 / 2)])" 0 None
               _ "exampleHighlights [exampleHighlight 10 (23 / 2)]"]
          short
    by (simp add: exampleHighlights_def minDurationOf_def maxDurationOf_def)
  from a b show ?thesis by simp
qed

section \<open>Properties of caption generation\<close>

lemma hallucinatedWords_Nil_iff:
  "hallucinatedWords js inputWords object = [] \<longleftrightarrow>
     \<not> (\<exists>seg\<in>set (captions object). \<exists>w\<in>set (words seg).
           trim js (toLowerCase js (CaptionWord.word w))
             \<notin> (\<lambda>v. trim js (toLowerCase js (WordTimestamp.word v))) ` set inputWords)"
  by (auto simp add: hallucinatedWords_def captionWords_def originalWords_def filter_empty_conv)

lemma hola_ok: "hallucinatedWords latin1 holaWords holaCaptions = []"
  by code_simp

lemma bienvenidos_bad:
  "hallucinatedWords latin1 holaWords bienvenidosCaptions = [''bienvenidos'']"
  by code_simp

lemma arbol_ok: "hallucinatedWords latin1 arbolWords arbolCaptions = []"
  by code_simp

text \<open>
  C1. Whatever the functions \<open>toLowerCase\<close> and \<open>trim\<close> of the runtime are: when the
  external model returns an answer, \<open>generateCaptions\<close> throws exactly if some word of
  some returned segment has a lower-cased, trimmed text that is not the lower-cased,
  trimmed text of an input word; the error is
  \<open>Failed to generate captions: AI hallucinated words not in transcription: \<close> followed
  by the offending normalized words, which are the normalized output words that are not
  normalized input words; otherwise the answer is returned. Whenever \<open>generateCaptions\<close>
  returns a result, the set of its normalized word texts is a subset of the set of the
  normalized input word texts.
\<close>

theorem generateCaptions_hallucination:
  "(generateObject calls = Inr object \<longrightarrow>
      fst (generateCaptions js True generateObject calls inputWords options)
        = (if \<exists>seg\<in>set (captions object). \<exists>w\<in>set (words seg).
                 trim js (toLowerCase js (CaptionWord.word w))
                   \<notin> (\<lambda>v. trim js (toLowerCase js (WordTimestamp.word v))) ` set inputWords
           then Inl (Error (''Failed to generate captions: AI hallucinated words not in transcription: ''
                              @ join '', '' (hallucinatedWords js inputWords object)))
           else Inr object))
   \<and> set (hallucinatedWords js inputWords object)
        = set (captionWords js object) - originalWords js inputWords
   \<and> set (captionWords js object)
        = {trim js (toLowerCase js (CaptionWord.word w)) | seg w.
             seg \<in> set (captions object) \<and> w \<in> set (words seg)}
   \<and> originalWords js inputWords
        = {trim js (toLowerCase js (WordTimestamp.word v)) | v. v \<in> set inputWords}
   \<and> (fst (generateCaptions js isAvailable generateObject calls inputWords options) = Inr r
        \<longrightarrow> set (captionWords js r) \<subseteq> originalWords js inputWords)"
proof (intro conjI impI)
  assume g: "generateObject calls = Inr object"
  show "fst (generateCaptions js True generateObject calls inputWords options)
        = (if \<exists>seg\<in>set (captions object). \<exists>w\<in>set (words seg).
                 trim js (toLowerCase js (CaptionWord.word w))
                   \<notin> (\<lambda>v. trim js (toLowerCase js (WordTimestamp.word v))) ` set inputWords
           then Inl (Error (''Failed to generate captions: AI hallucinated words not in transcription: ''
                              @ join '', '' (hallucinatedWords js inputWords object)))
           else Inr object)"
    using g hallucinatedWords_Nil_iff [of js inputWords object]
    by (simp add: generateCaptions_def checkAIConfiguration_def validateCaptions_def
          errorMessage_def)
next
  show "set (hallucinatedWords js inputWords object)
        = set (captionWords js object) - originalWords js inputWords"
    by (auto simp add: hallucinatedWords_def)
next
  show "set (captionWords js object)
        = {trim js (toLowerCase js (CaptionWord.word w)) | seg w.
             seg \<in> set (captions object) \<and> w \<in> set (words seg)}"
    by (auto simp add: captionWords_def)
next
  show "originalWords js inputWords
        = {trim js (toLowerCase js (WordTimestamp.word v)) | v. v \<in> set inputWords}"
    by (auto simp add: originalWords_def)
next
  assume "fst (generateCaptions js isAvailable generateObject calls inputWords options) = Inr r"
  then have "hallucinatedWords js inputWords r = []"
    by (auto simp add: generateCaptions_def checkAIConfiguration_def validateCaptions_def
          split: if_splits sum.splits)
  then show "set (captionWords js r) \<subseteq> originalWords js inputWords"
    by (auto simp add: hallucinatedWords_def filter_empty_conv)
qed

text \<open>
  With the runtime \<open>latin1\<close>: the words \<open>Hola esto es importante\<close> grouped in two
  segments are returned; an answer that contains \<open>Bienvenidos\<close> is rejected, and the
  error names the word; and an answer that writes a word in capital letters, among them
  the letter U+00C1, or puts a no-break space behind a word is returned.
\<close>

theorem generateCaptions_hallucination_witness:
  "fst (generateCaptions latin1 True (\<lambda>_. Inr holaCaptions) 0 holaWords None) = Inr holaCaptions
   \<and> set (captionWords latin1 holaCaptions) \<subseteq> originalWords latin1 holaWords
   \<and> fst (generateCaptions latin1 True (\<lambda>_. Inr bienvenidosCaptions) 0 holaWords None)
       = Inl (Error ''Failed to generate captions: AI hallucinated words not in transcription: bienvenidos'')
   \<and> fst (generateCaptions latin1 True (\<lambda>_. Inr arbolCaptions) 0 arbolWords None)
       = Inr arbolCaptions"
proof -
  have a: "fst (generateCaptions latin1 True (\<lambda>_. Inr holaCaptions) 0 holaWords None)
             = Inr holaCaptions"
    using generateCaptions_hallucination
            [of "\<lambda>_. Inr holaCaptions" 0 holaCaptions latin1 holaWords None]
          hallucinatedWords_Nil_iff [of latin1 holaWords holaCaptions] hola_ok
    by simp
  have b: "set (captionWords latin1 holaCaptions) \<subseteq> originalWords latin1 holaWords"
    by (rule generateCaptions_hallucination
               [of "\<lambda>_. Inr holaCaptions" 0 holaCaptions latin1 holaWords None True holaCaptions,
                THEN conjunct2, THEN conjunct2, THEN conjunct2, THEN conjunct2, THEN mp, OF a])
  have c: "fst (generateCaptions latin1 True (\<lambda>_. Inr bienvenidosCaptions) 0 holaWords None)
       = Inl (Error ''Failed to generate captions: AI hallucinated words not in transcription: bienvenidos'')"
    using generateCaptions_hallucination
            [of "\<lambda>_. Inr bienvenidosCaptions" 0 bienvenidosCaptions latin1 holaWords None]
          hallucinatedWords_Nil_iff [of latin1 holaWords bienvenidosCaptions] bienvenidos_bad
    by simp
  have d: "fst (generateCaptions latin1 True (\<lambda>_. Inr arbolCaptions) 0 arbolWords None)
             = Inr arbolCaptions"
    using generateCaptions_hallucination
            [of "\<lambda>_. Inr arbolCaptions" 0 arbolCaptions latin1 arbolWords None]
          hallucinatedWords_Nil_iff [of latin1 arbolWords arbolCaptions] arbol_ok
    by simp
  from a b c d show ?thesis by (intro conjI)
qed

text \<open>
  C6, as amended. \<open>generateCaptions\<close> returns a result exactly when the service is
  configured, the external model returned that result, and the result passes the check
  for hallucinated words. The number of words of a segment is not checked: a returned
  segment has the words that the model put into it. The default of
  \<open>maxWordsPerSegment\<close> is 3.
\<close>

theorem generateCaptions_success_iff:
  "(fst (generateCaptions js isAvailable generateObject calls inputWords options) = Inr r
      \<longleftrightarrow> isAvailable \<and> generateObject calls = Inr r \<and> hallucinatedWords js inputWords r = [])
   \<and> maxWordsPerSegmentOf None = 3"
  by (cases "generateObject calls")
     (auto simp add: generateCaptions_def checkAIConfiguration_def validateCaptions_def
        maxWordsPerSegmentOf_def)

text \<open>
  An answer whose only segment holds the single word \<open>Hola\<close> is returned under the
  default bound of 3 words.
\<close>

theorem generateCaptions_single_word_segment_counterexample:
  "fst (generateCaptions latin1 True (\<lambda>_. Inr singleWordCaptions) 0 holaWords None)
     = Inr singleWordCaptions
   \<and> segmentSizes singleWordCaptions = [1]
   \<and> maxWordsPerSegmentOf None = 3"
proof -
  have h: "hallucinatedWords latin1 holaWords singleWordCaptions = []" by code_simp
  have s: "segmentSizes singleWordCaptions = [1]" by code_simp
  show ?thesis
    using h s
    by (simp add: generateCaptions_def checkAIConfiguration_def validateCaptions_def
          maxWordsPerSegmentOf_def)
qed

section \<open>Properties of the subtitle encoder\<close>


lemma karaokeEvent_eq:
  "karaokeEvent st ws active
     = ''Dialogue: 0,'' @ formatASSTime (CaptionWord.startTime active) @ '',''
         @ formatASSTime (CaptionWord.endTime active) @ '',Default,,0,0,0,,''
         @ join '' '' (map (karaokeWord st active) ws) @ newline"
  by (simp add: karaokeEvent_def Let_def)





























lemma karaokeWord_emphasis:
  "karaokeWord st (a\<lparr>emphasis := x\<rparr>) (w\<lparr>emphasis := y\<rparr>) = karaokeWord st a w"
  by (simp add: karaokeWord_def)

lemma karaokeEvent_emphasis:
  "karaokeEvent st (map (\<lambda>w. w\<lparr>emphasis := False\<rparr>) ws) (a\<lparr>emphasis := False\<rparr>)
     = karaokeEvent st ws a"
  by (simp add: karaokeEvent_eq comp_def karaokeWord_emphasis)

lemma generateKaraokeEvents_emphasis:
  "generateKaraokeEvents (seg\<lparr>words := map (\<lambda>w. w\<lparr>emphasis := False\<rparr>) (words seg)\<rparr>) st
     = generateKaraokeEvents seg st"
  by (simp add: generateKaraokeEvents_def comp_def karaokeEvent_emphasis)

lemma captionsToASS_clearEmphasis: "captionsToASS (clearEmphasis r) = captionsToASS r"
  by (simp add: captionsToASS_def clearEmphasis_def comp_def generateKaraokeEvents_emphasis)

text \<open>
  C10. Two answers that are equal except in the emphasis flags of their words are
  encoded to the same text. The style chosen from the flag is \<open>Highlight\<close> for both
  values of the flag and is not part of the event, whose style field is \<open>Default\<close>;
  the drawing of a word does not depend on a flag either.
\<close>

theorem captionsToASS_ignores_emphasis:
  "(clearEmphasis r1 = clearEmphasis r2 \<longrightarrow> captionsToASS r1 = captionsToASS r2)
   \<and> wordStyle active = ''Highlight''
   \<and> karaokeEvent st ws active
       = ''Dialogue: 0,'' @ formatASSTime (CaptionWord.startTime active) @ '',''
           @ formatASSTime (CaptionWord.endTime active) @ '',Default,,0,0,0,,''
           @ join '' '' (map (karaokeWord st active) ws) @ newline
   \<and> karaokeWord st (active\<lparr>emphasis := x\<rparr>) (w\<lparr>emphasis := y\<rparr>) = karaokeWord st active w"
proof (intro conjI impI)
  assume "clearEmphasis r1 = clearEmphasis r2"
  then have "captionsToASS (clearEmphasis r1) = captionsToASS (clearEmphasis r2)" by simp
  then show "captionsToASS r1 = captionsToASS r2" by (simp only: captionsToASS_clearEmphasis)
next
  show "wordStyle active = ''Highlight''" by (simp add: wordStyle_def)
next
  show "karaokeEvent st ws active
       = ''Dialogue: 0,'' @ formatASSTime (CaptionWord.startTime active) @ '',''
           @ formatASSTime (CaptionWord.endTime active) @ '',Default,,0,0,0,,''
           @ join '' '' (map (karaokeWord st active) ws) @ newline"
    by (rule karaokeEvent_eq)
next
  show "karaokeWord st (active\<lparr>emphasis := x\<rparr>) (w\<lparr>emphasis := y\<rparr>) = karaokeWord st active w"
    by (rule karaokeWord_emphasis)
qed

theorem captionsToASS_ignores_emphasis_witness:
  "captionsToASS holaCaptions = captionsToASS holaCaptionsFlipped
   \<and> holaCaptions \<noteq> holaCaptionsFlipped"
proof -
  have h: "clearEmphasis holaCaptions = clearEmphasis holaCaptionsFlipped"
    by (simp add: clearEmphasis_def holaCaptions_def holaCaptionsFlipped_def exampleCaptions_def
          exampleSegment_def exampleCaptionWord_def)
  have a: "captionsToASS holaCaptions = captionsToASS holaCaptionsFlipped"
    by (rule captionsToASS_ignores_emphasis
               [of holaCaptions holaCaptionsFlipped, THEN conjunct1, THEN mp, OF h])
  have b: "holaCaptions \<noteq> holaCaptionsFlipped"
    by (simp add: holaCaptions_def holaCaptionsFlipped_def exampleCaptions_def
          exampleSegment_def exampleCaptionWord_def)
  from a b show ?thesis by (rule conjI)
qed

section \<open>Properties of the colour conversion\<close>

lemma hex_chars:
  "\<forall>c\<in>set ''0123456789abcdefABCDEF''.
     hexDigitValue c \<noteq> None \<and> \<not> isWhiteSpace c \<and> c \<noteq> CHR ''-'' \<and> c \<noteq> CHR ''+''
     \<and> c \<noteq> CHR ''x'' \<and> c \<noteq> CHR ''X'' \<and> c \<noteq> CHR ''#''
     \<and> the (hexDigitValue c) < 16
     \<and> toUpperChar (digitChar (the (hexDigitValue c))) = toUpperChar c
     \<and> isHexDigit (toUpperChar c)
     \<and> hexDigitValue (toUpperChar c) = hexDigitValue c"
  by code_simp

lemma hex_values:
  "\<forall>d\<in>set [0..<16]. hexDigitValue (toUpperChar (digitChar d)) = Some d
       \<and> isHexDigit (toUpperChar (digitChar d))"
  by code_simp

lemma hexD:
  assumes "isHexDigit c"
  shows "hexDigitValue c \<noteq> None" "\<not> isWhiteSpace c" "c \<noteq> CHR ''-''" "c \<noteq> CHR ''+''"
    "c \<noteq> CHR ''x''" "c \<noteq> CHR ''X''" "c \<noteq> CHR ''#''" "the (hexDigitValue c) < 16"
    "toUpperChar (digitChar (the (hexDigitValue c))) = toUpperChar c"
    "isHexDigit (toUpperChar c)" "hexDigitValue (toUpperChar c) = hexDigitValue c"
  using assms hex_chars unfolding isHexDigit_def by blast+

lemma hexV:
  assumes "d < 16"
  shows "hexDigitValue (toUpperChar (digitChar d)) = Some d" "isHexDigit (toUpperChar (digitChar d))"
proof -
  from assms have "d \<in> set [0..<16]" by simp
  with hex_values show "hexDigitValue (toUpperChar (digitChar d)) = Some d"
    "isHexDigit (toUpperChar (digitChar d))" by blast+
qed

lemma parseInt16_two:
  assumes "isHexDigit x" and "isHexDigit y"
  shows "parseInt16 [x, y] = Some (int (16 * the (hexDigitValue x) + the (hexDigitValue y)))"
  using hexD [OF assms(1)] hexD [OF assms(2)]
  by (simp add: parseInt16_def hexValue_def)

lemma natToString16_byte:
  assumes "n < 256"
  shows "padStart 2 (CHR ''0'') (natToString 16 n) = [digitChar (n div 16), digitChar (n mod 16)]"
proof (cases "n < 16")
  case True
  then show ?thesis
    by (simp add: natToString.simps [of 16 n] padStart_def digitChar_def)
next
  case False
  then have "n div 16 < 16" using assms by simp
  with False show ?thesis
    by (simp add: natToString.simps [of 16 n] natToString.simps [of 16 "n div 16"] padStart_def)
qed

lemma channel:
  assumes "isHexDigit x" and "isHexDigit y"
  shows "toUpperCase (padStart 2 (CHR ''0'') (numberToString 16 (parseInt16 [x, y])))
           = [toUpperChar x, toUpperChar y]"
proof -
  define n where "n = 16 * the (hexDigitValue x) + the (hexDigitValue y)"
  have vx: "the (hexDigitValue x) < 16" and vy: "the (hexDigitValue y) < 16"
    using hexD assms by blast+
  then have n: "n < 256" by (simp add: n_def)
  have d: "n div 16 = the (hexDigitValue x)" "n mod 16 = the (hexDigitValue y)"
    using vx vy by (simp_all add: n_def)
  have "parseInt16 [x, y] = Some (int n)"
    using parseInt16_two [OF assms] by (simp only: n_def)
  then have "numberToString 16 (parseInt16 [x, y]) = natToString 16 n"
    by (simp add: numberToString_def intToString_def)
  then have "padStart 2 (CHR ''0'') (numberToString 16 (parseInt16 [x, y]))
               = [digitChar (the (hexDigitValue x)), digitChar (the (hexDigitValue y))]"
    using natToString16_byte [OF n] by (simp only: d)
  then show ?thesis
    using hexD(9) [OF assms(1)] hexD(9) [OF assms(2)] by (simp add: toUpperCase_def)
qed

lemma alpha_byte:
  assumes "0 \<le> alpha" and "alpha \<le> 1"
  shows "0 \<le> Math_round ((1 - alpha) * 255)" "Math_round ((1 - alpha) * 255) \<le> 255"
proof -
  have a: "0 \<le> (1 - alpha) * 255" "(1 - alpha) * 255 \<le> 255" using assms by simp_all
  show "0 \<le> Math_round ((1 - alpha) * 255)"
    unfolding Math_round_def using a by (simp add: le_floor_iff)
  have "(1 - alpha) * 255 + 1 / 2 < 256" using a by simp
  then have "\<lfloor>(1 - alpha) * 255 + 1 / 2\<rfloor> < 256" by (simp add: floor_less_iff)
  then show "Math_round ((1 - alpha) * 255) \<le> 255" unfolding Math_round_def by simp
qed

lemma alpha_in_doubles:
  "Math_round (toDouble (toDouble (1 - toDouble 1) * 255)) = Math_round ((1 - 1) * 255)"
  "Math_round (toDouble (toDouble (1 - toDouble (8 / 10)) * 255)) = Math_round ((1 - 8 / 10) * 255)"
  by code_simp+

lemma alpha_channel:
  assumes "0 \<le> alpha" and "alpha \<le> 1"
  shows "toUpperCase (padStart 2 (CHR ''0'') (numberToString 16 (Some (Math_round ((1 - alpha) * 255)))))
           = twoHex (nat (Math_round ((1 - alpha) * 255)))"
proof -
  have n: "nat (Math_round ((1 - alpha) * 255)) < 256"
    using alpha_byte [OF assms] by simp
  show ?thesis
    using natToString16_byte [OF n] alpha_byte(1) [OF assms]
    by (simp add: numberToString_def intToString_def toUpperCase_def twoHex_def)
qed

lemma cleanHex:
  assumes "list_all isHexDigit ds"
  shows "remove1 (CHR ''#'') ds = ds" "remove1 (CHR ''#'') (CHR ''#'' # ds) = ds"
proof -
  have "CHR ''#'' \<notin> set ds"
    using assms hexD(7) by (auto simp add: list_all_iff)
  then show "remove1 (CHR ''#'') ds = ds" by (simp add: remove1_idem)
  show "remove1 (CHR ''#'') (CHR ''#'' # ds) = ds" by simp
qed

lemma hexToASSColor_clean:
  assumes "list_all isHexDigit [r1, r0, g1, g0, b1, b0]" and "0 \<le> alpha" and "alpha \<le> 1"
    and "remove1 (CHR ''#'') hex = [r1, r0, g1, g0, b1, b0]"
  shows "hexToASSColor hex alpha
           = ''&H'' @ twoHex (nat (Math_round ((1 - alpha) * 255)))
               @ toUpperCase [b1, b0, g1, g0, r1, r0]"
proof -
  have h: "isHexDigit r1" "isHexDigit r0" "isHexDigit g1" "isHexDigit g0" "isHexDigit b1" "isHexDigit b0"
    using assms(1) by simp_all
  have s: "substring [r1, r0, g1, g0, b1, b0] 0 2 = [r1, r0]"
    "substring [r1, r0, g1, g0, b1, b0] 2 4 = [g1, g0]"
    "substring [r1, r0, g1, g0, b1, b0] 4 6 = [b1, b0]"
    by (simp_all add: substring_def)
  show ?thesis
    unfolding hexToASSColor_def Let_def assms(4) s
      channel [OF h(1) h(2)] channel [OF h(3) h(4)] channel [OF h(5) h(6)]
      alpha_channel [OF assms(2) assms(3)]
    by (simp add: toUpperCase_def)
qed

lemma hexValue_two_upper:
  assumes "isHexDigit x" and "isHexDigit y"
  shows "hexValue [toUpperChar x, toUpperChar y] = hexValue [x, y]"
  using hexD(11) [OF assms(1)] hexD(11) [OF assms(2)] by (simp add: hexValue_def)

lemma hexValue_twoHex:
  assumes "n < 256"
  shows "hexValue (twoHex n) = n"
proof -
  have "n div 16 < 16" "n mod 16 < 16" using assms by simp_all
  then show ?thesis
    using hexV(1) [of "n div 16"] hexV(1) [of "n mod 16"]
    by (simp add: hexValue_def twoHex_def)
qed

lemma decode_token:
  assumes "list_all isHexDigit [r1, r0, g1, g0, b1, b0]" and "n < 256"
  shows "decodeASSColor (''&H'' @ twoHex n @ toUpperCase [b1, b0, g1, g0, r1, r0])
           = Some (n, hexValue [r1, r0], hexValue [g1, g0], hexValue [b1, b0])"
proof -
  have h: "isHexDigit r1" "isHexDigit r0" "isHexDigit g1" "isHexDigit g0" "isHexDigit b1" "isHexDigit b0"
    using assms(1) by simp_all
  have d: "n div 16 < 16" "n mod 16 < 16" using assms(2) by simp_all
  have a: "hexValue [toUpperChar (digitChar (n div 16)), toUpperChar (digitChar (n mod 16))] = n"
    using hexValue_twoHex [OF assms(2)] by (simp add: twoHex_def)
  show ?thesis
    using h hexD(10) hexV(2) [OF d(1)] hexV(2) [OF d(2)] a
    by (simp add: decodeASSColor_def twoHex_def toUpperCase_def substring_def hexValue_two_upper)
qed


text \<open>
  C5. For a colour of six hexadecimal digits \<open>r1 r0 g1 g0 b1 b0\<close>, with or without a
  leading \<open>#\<close>, and an opacity between 0 and 1, \<open>hexToASSColor\<close> returns \<open>&H\<close>, the
  byte \<open>round((1 - alpha) * 255)\<close> in two hexadecimal digits, and the digits of blue,
  green and red in this order, in upper case; the alpha byte is 0 for opacity 1 and 255
  for opacity 0. Reading the token back in the order \<open>&HAABBGGRR\<close> gives the alpha byte
  and the red, green and blue values of the input.
\<close>

theorem hexToASSColor_bgr_inverted_alpha:
  assumes "list_all isHexDigit [r1, r0, g1, g0, b1, b0]"
    and "hex = [r1, r0, g1, g0, b1, b0] \<or> hex = CHR ''#'' # [r1, r0, g1, g0, b1, b0]"
    and "0 \<le> alpha" and "alpha \<le> 1"
  shows "hexToASSColor hex alpha
           = ''&H'' @ twoHex (nat (Math_round ((1 - alpha) * 255)))
               @ toUpperCase [b1, b0, g1, g0, r1, r0]
         \<and> decodeASSColor (hexToASSColor hex alpha)
             = Some (nat (Math_round ((1 - alpha) * 255)),
                     hexValue [r1, r0], hexValue [g1, g0], hexValue [b1, b0])
         \<and> Math_round ((1 - 1) * 255) = 0 \<and> Math_round ((1 - 0) * 255) = 255"
proof -
  have c: "remove1 (CHR ''#'') hex = [r1, r0, g1, g0, b1, b0]"
    using assms(2) cleanHex [OF assms(1)] by auto
  have n: "nat (Math_round ((1 - alpha) * 255)) < 256"
    using alpha_byte [OF assms(3) assms(4)] by simp
  have a: "hexToASSColor hex alpha
           = ''&H'' @ twoHex (nat (Math_round ((1 - alpha) * 255)))
               @ toUpperCase [b1, b0, g1, g0, r1, r0]"
    by (rule hexToASSColor_clean [OF assms(1) assms(3) assms(4) c])
  have b: "decodeASSColor (hexToASSColor hex alpha)
             = Some (nat (Math_round ((1 - alpha) * 255)),
                     hexValue [r1, r0], hexValue [g1, g0], hexValue [b1, b0])"
    unfolding a by (rule decode_token [OF assms(1) n])
  have m: "Math_round ((1 - 1) * 255) = 0" "Math_round ((1 - 0) * 255) = 255"
    by (simp_all add: Math_round_def)
  from a b m show ?thesis by simp
qed

text \<open>\<open>#FFD700\<close> at full opacity is \<open>&H0000D7FF\<close>, which reads back as (255, 215, 0).\<close>

theorem hexToASSColor_bgr_inverted_alpha_witness:
  "hexToASSColor ''#FFD700'' 1 = ''&H0000D7FF''
   \<and> decodeASSColor (hexToASSColor ''#FFD700'' 1) = Some (0, 255, 215, 0)"
proof -
  have h1: "list_all isHexDigit ''FFD700''" by code_simp
  have h2: "''#FFD700'' = ''FFD700'' \<or> ''#FFD700'' = CHR ''#'' # ''FFD700''" by simp
  have h3: "(0::real) \<le> 1" and h4: "(1::real) \<le> 1" by simp_all
  note inst = hexToASSColor_bgr_inverted_alpha [OF h1 h2 h3 h4]
  have e1: "''&H'' @ twoHex (nat (Math_round ((1 - 1) * 255))) @ toUpperCase ''00D7FF''
              = ''&H0000D7FF''"
    by code_simp
  have e2: "Some (nat (Math_round ((1 - 1) * 255)), hexValue ''FF'', hexValue ''D7'', hexValue ''00'')
              = Some (0, 255, 215, 0)"
    by code_simp
  from inst [THEN conjunct1, unfolded e1] inst [THEN conjunct2, THEN conjunct1, unfolded e2]
  show ?thesis by (rule conjI)
qed

section \<open>Properties of the subtitle header\<close>

lemma splitOn_sep:
  "c \<notin> set l \<Longrightarrow> splitOn c (l @ c # rest) = l # splitOn c rest"
  by (induction l) auto

lemma splitOn_no_sep: "c \<notin> set l \<Longrightarrow> splitOn c l = [l]"
  by (induction l) auto

lemma splitOn_lines:
  "\<forall>l\<in>set ls. c \<notin> set l \<Longrightarrow>
     splitOn c (concat (map (\<lambda>l. l @ [c]) ls) @ rest) = ls @ splitOn c rest"
  by (induction ls) (simp_all add: splitOn_sep)

lemma splitOn_join:
  "fs \<noteq> [] \<Longrightarrow> \<forall>f\<in>set fs. c \<notin> set f \<Longrightarrow> splitOn c (join [c] fs) = fs"
proof (induction "[c]" fs rule: join.induct)
  case 1
  then show ?case by simp
next
  case (2 x)
  then show ?case by (simp add: splitOn_no_sep)
next
  case (3 x y ys)
  then show ?case by (simp add: splitOn_sep)
qed

lemma toUpperChar_sep:
  "toUpperChar c = CHR '','' \<longleftrightarrow> c = CHR '',''"
  "toUpperChar c = CHR 0x0A \<longleftrightarrow> c = CHR 0x0A"
proof -
  have u: "u \<in> set ''ABCDEFGHIJKLMNOPQRSTUVWXYZ''"
    if "map_of (zip ''abcdefghijklmnopqrstuvwxyz'' ''ABCDEFGHIJKLMNOPQRSTUVWXYZ'') c = Some u" for u
    using that by (rule map_of_SomeD [THEN set_zip_rightD])
  have k: "c \<in> set ''abcdefghijklmnopqrstuvwxyz''"
    if "map_of (zip ''abcdefghijklmnopqrstuvwxyz'' ''ABCDEFGHIJKLMNOPQRSTUVWXYZ'') c = Some u" for u
    using that by (rule map_of_SomeD [THEN set_zip_leftD])
  show "toUpperChar c = CHR '','' \<longleftrightarrow> c = CHR '',''"
    unfolding toUpperChar_def using u k by (auto split: option.splits)
  show "toUpperChar c = CHR 0x0A \<longleftrightarrow> c = CHR 0x0A"
    unfolding toUpperChar_def using u k by (auto split: option.splits)
qed

lemma digit_no_sep:
  "\<forall>k\<in>set [0..<36]. digitChar k \<noteq> CHR '','' \<and> digitChar k \<noteq> CHR 0x0A"
  by code_simp

lemma natToString_no_sep:
  "2 \<le> radix \<Longrightarrow> radix \<le> 36 \<Longrightarrow>
     CHR '','' \<notin> set (natToString radix n) \<and> CHR 0x0A \<notin> set (natToString radix n)"
proof (induction radix n rule: natToString.induct)
  case (1 radix n)
  have d: "digitChar k \<noteq> CHR '','' \<and> digitChar k \<noteq> CHR 0x0A" if "k < 36" for k
  proof -
    from that have "k \<in> set [0..<36]" by simp
    with digit_no_sep show ?thesis by blast
  qed
  show ?case
  proof (cases "n < radix")
    case True
    then have "n < 36" using "1.prems" by simp
    with True d [of n] show ?thesis
      by (simp add: natToString.simps [of radix n] eq_commute)
  next
    case False
    have "n mod radix < radix" using "1.prems" by simp
    then have "n mod radix < 36" using "1.prems"(2) by (rule less_le_trans)
    with False "1.prems" "1.IH" d [of "n mod radix"] show ?thesis
      by (simp add: natToString.simps [of radix n] eq_commute)
  qed
qed

lemma intToString_no_sep:
  "2 \<le> radix \<Longrightarrow> radix \<le> 36 \<Longrightarrow>
     CHR '','' \<notin> set (intToString radix i) \<and> CHR 0x0A \<notin> set (intToString radix i)"
  using natToString_no_sep [of radix "nat i"] natToString_no_sep [of radix "nat (- i)"]
  by (simp add: intToString_def)

lemma numberToString_no_sep:
  "2 \<le> radix \<Longrightarrow> radix \<le> 36 \<Longrightarrow>
     CHR '','' \<notin> set (numberToString radix v) \<and> CHR 0x0A \<notin> set (numberToString radix v)"
  using intToString_no_sep [of radix]
  by (cases v) (simp_all add: numberToString_def)

lemma fontSize_no_sep:
  "CHR '','' \<notin> set (intToString 10 i)" "CHR 0x0A \<notin> set (intToString 10 i)"
  using intToString_no_sep [of 10 i] by simp_all

lemma toUpperCase_no_sep:
  assumes "c \<notin> set s" and "\<And>x. toUpperChar x = c \<longleftrightarrow> x = c"
  shows "c \<notin> set (toUpperCase s)"
proof
  assume "c \<in> set (toUpperCase s)"
  then obtain x where x: "x \<in> set s" and "toUpperChar x = c"
    by (auto simp add: toUpperCase_def)
  then have "x = c" using assms(2) by simp
  with x assms(1) show False by simp
qed

lemma channel_no_sep:
  "CHR '','' \<notin> set (toUpperCase (padStart 2 (CHR ''0'') (numberToString 16 v)))"
  "CHR 0x0A \<notin> set (toUpperCase (padStart 2 (CHR ''0'') (numberToString 16 v)))"
proof -
  have p: "CHR '','' \<notin> set (padStart 2 (CHR ''0'') (numberToString 16 v))"
    "CHR 0x0A \<notin> set (padStart 2 (CHR ''0'') (numberToString 16 v))"
    using numberToString_no_sep [of 16 v] by (simp_all add: padStart_def)
  show "CHR '','' \<notin> set (toUpperCase (padStart 2 (CHR ''0'') (numberToString 16 v)))"
    using p(1) toUpperChar_sep(1) by (rule toUpperCase_no_sep)
  show "CHR 0x0A \<notin> set (toUpperCase (padStart 2 (CHR ''0'') (numberToString 16 v)))"
    using p(2) toUpperChar_sep(2) by (rule toUpperCase_no_sep)
qed

lemma hexToASSColor_no_sep:
  "CHR '','' \<notin> set (hexToASSColor hex alpha)" "CHR 0x0A \<notin> set (hexToASSColor hex alpha)"
  by (simp_all add: hexToASSColor_def Let_def channel_no_sep)

lemma default_style_line:
  "''Style: Default,Arial,'' @ F
     @ '',&H00FFFFFF,&H00FFFFFF,&H00000000,&H80000000,1,0,0,0,100,100,0,0,1,2,1,2,10,10,480,1''
   = join '',''
       [''Style: Default'', ''Arial'', F, ''&H00FFFFFF'', ''&H00FFFFFF'', ''&H00000000'',
        ''&H80000000'', ''1'', ''0'', ''0'', ''0'', ''100'', ''100'', ''0'', ''0'', ''1'', ''2'',
        ''1'', ''2'', ''10'', ''10'', ''480'', ''1'']"
  by simp

lemma highlight_style_line:
  "''Style: Highlight,Arial,'' @ F @ '','' @ P @ '','' @ S @ '',&H00000000,'' @ B
     @ '',1,0,0,0,100,100,0,0,1,2,1,2,10,10,480,1''
   = join '',''
       [''Style: Highlight'', ''Arial'', F, P, S, ''&H00000000'', B,
        ''1'', ''0'', ''0'', ''0'', ''100'', ''100'', ''0'', ''0'', ''1'', ''2'',
        ''1'', ''2'', ''10'', ''10'', ''480'', ''1'']"
  by simp

lemma format_line:
  "''Format: Name, Fontname, Fontsize, PrimaryColour, SecondaryColour, OutlineColour, BackColour, Bold, Italic, Underline, StrikeOut, ScaleX, ScaleY, Spacing, Angle, BorderStyle, Outline, Shadow, Alignment, MarginL, MarginR, MarginV, Encoding''
   = join '',''
       [''Format: Name'', '' Fontname'', '' Fontsize'', '' PrimaryColour'', '' SecondaryColour'',
        '' OutlineColour'', '' BackColour'', '' Bold'', '' Italic'', '' Underline'', '' StrikeOut'',
        '' ScaleX'', '' ScaleY'', '' Spacing'', '' Angle'', '' BorderStyle'', '' Outline'',
        '' Shadow'', '' Alignment'', '' MarginL'', '' MarginR'', '' MarginV'', '' Encoding'']"
  by simp

lemma header_lines:
  "header st
     = concat (map (\<lambda>l. l @ [CHR 0x0A])
         [''[Script Info]'',
          ''Title: Clipwise Captions'',
          ''ScriptType: v4.00+'',
          ''WrapStyle: 0'',
          ''ScaledBorderAndShadow: yes'',
          ''YCbCr Matrix: None'',
          ''PlayResY: 1920'',
          [],
          ''[V4+ Styles]'',
          ''Format: Name, Fontname, Fontsize, PrimaryColour, SecondaryColour, OutlineColour, BackColour, Bold, Italic, Underline, StrikeOut, ScaleX, ScaleY, Spacing, Angle, BorderStyle, Outline, Shadow, Alignment, MarginL, MarginR, MarginV, Encoding'',
          ''Style: Default,Arial,'' @ intToString 10 (fontSize st)
            @ '',&H00FFFFFF,&H00FFFFFF,&H00000000,&H80000000,1,0,0,0,100,100,0,0,1,2,1,2,10,10,480,1'',
          ''Style: Highlight,Arial,'' @ intToString 10 (fontSize st) @ '',''
            @ hexToASSColor (highlightColor st) 1 @ '','' @ hexToASSColor (highlightColor st) 1
            @ '',&H00000000,'' @ hexToASSColor (highlightColor st) (8 / 10)
            @ '',1,0,0,0,100,100,0,0,1,2,1,2,10,10,480,1'',
          [],
          ''[Events]'',
          ''Format: Layer, Start, End, Style, Name, MarginL, MarginR, MarginV, Effect, Text''])"
  by (simp add: header_def newline_def)


lemma captionsToASS_lines:
  "splitOn (CHR 0x0A) (captionsToASS r)
     = [''[Script Info]'',
        ''Title: Clipwise Captions'',
        ''ScriptType: v4.00+'',
        ''WrapStyle: 0'',
        ''ScaledBorderAndShadow: yes'',
        ''YCbCr Matrix: None'',
        ''PlayResY: 1920'',
        [],
        ''[V4+ Styles]'',
        ''Format: Name, Fontname, Fontsize, PrimaryColour, SecondaryColour, OutlineColour, BackColour, Bold, Italic, Underline, StrikeOut, ScaleX, ScaleY, Spacing, Angle, BorderStyle, Outline, Shadow, Alignment, MarginL, MarginR, MarginV, Encoding'',
        ''Style: Default,Arial,'' @ intToString 10 (fontSize (style r))
          @ '',&H00FFFFFF,&H00FFFFFF,&H00000000,&H80000000,1,0,0,0,100,100,0,0,1,2,1,2,10,10,480,1'',
        ''Style: Highlight,Arial,'' @ intToString 10 (fontSize (style r)) @ '',''
          @ hexToASSColor (highlightColor (style r)) 1 @ '','' @ hexToASSColor (highlightColor (style r)) 1
          @ '',&H00000000,'' @ hexToASSColor (highlightColor (style r)) (8 / 10)
          @ '',1,0,0,0,100,100,0,0,1,2,1,2,10,10,480,1'',
        [],
        ''[Events]'',
        ''Format: Layer, Start, End, Style, Name, MarginL, MarginR, MarginV, Effect, Text'']
       @ splitOn (CHR 0x0A)
           (join [] (map (\<lambda>segment. generateKaraokeEvents segment (style r)) (captions r)))"
  unfolding captionsToASS_def Let_def header_lines
  by (rule splitOn_lines) (simp add: fontSize_no_sep hexToASSColor_no_sep)

text \<open>
  C4. In the text that \<open>captionsToASS\<close> returns, for every answer, the seventh line is
  \<open>PlayResY: 1920\<close>; the 22nd column of the \<open>Format\<close> line of the styles is
  \<open>MarginV\<close>, and the 22nd field of the \<open>Default\<close> style line and of the
  \<open>Highlight\<close> style line is \<open>480\<close>. This is the quarter of the reference height 1920;
  the quarter of 1080 is 270.
\<close>

theorem captionsToASS_header_margin:
  "splitOn (CHR 0x0A) (captionsToASS r) ! 6 = ''PlayResY: 1920''
   \<and> splitOn (CHR '','') (splitOn (CHR 0x0A) (captionsToASS r) ! 9) ! 21 = '' MarginV''
   \<and> splitOn (CHR '','') (splitOn (CHR 0x0A) (captionsToASS r) ! 10) ! 0 = ''Style: Default''
   \<and> splitOn (CHR '','') (splitOn (CHR 0x0A) (captionsToASS r) ! 10) ! 21 = ''480''
   \<and> splitOn (CHR '','') (splitOn (CHR 0x0A) (captionsToASS r) ! 11) ! 0 = ''Style: Highlight''
   \<and> splitOn (CHR '','') (splitOn (CHR 0x0A) (captionsToASS r) ! 11) ! 21 = ''480''
   \<and> specMarginV 1920 = 480 \<and> specMarginV 1080 = 270"
proof -
  let ?ls = "splitOn (CHR 0x0A) (captionsToASS r)"
  have l6: "?ls ! 6 = ''PlayResY: 1920''"
    unfolding captionsToASS_lines by simp
  have l9: "?ls ! 9 = ''Format: Name, Fontname, Fontsize, PrimaryColour, SecondaryColour, OutlineColour, BackColour, Bold, Italic, Underline, StrikeOut, ScaleX, ScaleY, Spacing, Angle, BorderStyle, Outline, Shadow, Alignment, MarginL, MarginR, MarginV, Encoding''"
    unfolding captionsToASS_lines by simp
  have l10: "?ls ! 10 = ''Style: Default,Arial,'' @ intToString 10 (fontSize (style r))
          @ '',&H00FFFFFF,&H00FFFFFF,&H00000000,&H80000000,1,0,0,0,100,100,0,0,1,2,1,2,10,10,480,1''"
    unfolding captionsToASS_lines by simp
  have l11: "?ls ! 11 = ''Style: Highlight,Arial,'' @ intToString 10 (fontSize (style r)) @ '',''
          @ hexToASSColor (highlightColor (style r)) 1 @ '','' @ hexToASSColor (highlightColor (style r)) 1
          @ '',&H00000000,'' @ hexToASSColor (highlightColor (style r)) (8 / 10)
          @ '',1,0,0,0,100,100,0,0,1,2,1,2,10,10,480,1''"
    unfolding captionsToASS_lines by simp
  have f9: "splitOn (CHR '','') (?ls ! 9) ! 21 = '' MarginV''"
    unfolding l9 format_line by (subst splitOn_join) simp_all
  have f10: "splitOn (CHR '','') (?ls ! 10) ! 0 = ''Style: Default''"
    "splitOn (CHR '','') (?ls ! 10) ! 21 = ''480''"
    unfolding l10 default_style_line
    by (subst splitOn_join; simp add: fontSize_no_sep)+
  have f11: "splitOn (CHR '','') (?ls ! 11) ! 0 = ''Style: Highlight''"
    "splitOn (CHR '','') (?ls ! 11) ! 21 = ''480''"
    unfolding l11 highlight_style_line
    by (subst splitOn_join; simp add: fontSize_no_sep hexToASSColor_no_sep)+
  have m: "specMarginV 1920 = 480" "specMarginV 1080 = 270"
    by (simp_all add: specMarginV_def)
  from l6 f9 f10 f11 m show ?thesis by (intro conjI)
qed

section \<open>Properties of the crop window\<close>

text \<open>
  C9. When \<open>ffprobe\<close> reports a first video stream of width \<open>sourceWidth\<close> and height
  \<open>sourceHeight\<close>, both present and not 0, \<open>cropToVertical\<close> runs the engine with a
  crop filter followed by a scale filter. If \<open>sourceWidth / sourceHeight > 9/16\<close>, the
  crop has the full source height, the width \<open>floor(sourceHeight * 9/16)\<close>,
  \<open>x = floor((sourceWidth - cropWidth) / 2)\<close> and \<open>y = 0\<close>. Otherwise it has the full
  source width, the height \<open>floor(sourceWidth / (9/16))\<close>, \<open>x = 0\<close>, and \<open>y = 0\<close> for
  \<open>top\<close>, \<open>sourceHeight - cropHeight\<close> for \<open>bottom\<close> and
  \<open>floor((sourceHeight - cropHeight) / 2)\<close> for \<open>center\<close>, the default. The scale is
  the target resolution, 1080 by 1920 by default.
\<close>

theorem cropToVertical_window:
  assumes "ffprobe w inputPath = Inr streams"
    and "find (\<lambda>s. codec_type s = ''video'') streams = Some videoStream"
    and "stream.width videoStream = Some sourceWidth"
    and "stream.height videoStream = Some sourceHeight"
    and "sourceWidth \<noteq> 0" and "sourceHeight \<noteq> 0"
  shows "(real_of_int sourceWidth / real_of_int sourceHeight > 9 / 16 \<longrightarrow>
            cropToVertical w inputPath outputPath options fs
              = runFfmpeg w
                  (FilterCmd inputPath
                     [Crop \<lfloor>real_of_int sourceHeight * (9 / 16)\<rfloor> sourceHeight
                           \<lfloor>real_of_int (sourceWidth - \<lfloor>real_of_int sourceHeight * (9 / 16)\<rfloor>) / 2\<rfloor> 0,
                      Scale (targetWidthOf options) (targetHeightOf options)]
                     outputPath) fs)
         \<and> (real_of_int sourceWidth / real_of_int sourceHeight \<le> 9 / 16 \<longrightarrow>
            cropToVertical w inputPath outputPath options fs
              = runFfmpeg w
                  (FilterCmd inputPath
                     [Crop sourceWidth \<lfloor>real_of_int sourceWidth / (9 / 16)\<rfloor> 0
                           (case positionOf options of
                              Top \<Rightarrow> 0
                            | Bottom \<Rightarrow> sourceHeight - \<lfloor>real_of_int sourceWidth / (9 / 16)\<rfloor>
                            | Center \<Rightarrow>
                                \<lfloor>real_of_int (sourceHeight - \<lfloor>real_of_int sourceWidth / (9 / 16)\<rfloor>) / 2\<rfloor>),
                      Scale (targetWidthOf options) (targetHeightOf options)]
                     outputPath) fs)
         \<and> targetWidthOf None = 1080 \<and> targetHeightOf None = 1920 \<and> positionOf None = Center"
  using assms
  by (cases "positionOf options")
     (simp_all add: cropToVertical_def cropFilters_def Let_def targetWidthOf_def
        targetHeightOf_def positionOf_def)

text \<open>
  A source of 1920 by 1080 is cropped to 607 by 1080 at \<open>x = 656\<close>; a source of 1080 by
  2400 with position \<open>bottom\<close> is cropped to 1080 by 1920 at \<open>y = 480\<close>.
\<close>

theorem cropToVertical_window_witness:
  "cropToVertical (exampleWorld (videoStreamOf 1920 1080)) ''in.mp4'' ''out.mp4'' None {}
     = runFfmpeg (exampleWorld (videoStreamOf 1920 1080))
         (FilterCmd ''in.mp4'' [Crop 607 1080 656 0, Scale 1080 1920] ''out.mp4'') {}
   \<and> cropToVertical (exampleWorld (videoStreamOf 1080 2400)) ''in.mp4'' ''out.mp4''
         (Some \<lparr>CropOptions.width = None, CropOptions.height = None,
                 CropOptions.position = Some Bottom\<rparr>) {}
     = runFfmpeg (exampleWorld (videoStreamOf 1080 2400))
         (FilterCmd ''in.mp4'' [Crop 1080 1920 0 480, Scale 1080 1920] ''out.mp4'') {}"
proof -
  have a: "cropToVertical (exampleWorld (videoStreamOf 1920 1080)) ''in.mp4'' ''out.mp4'' None {}
     = runFfmpeg (exampleWorld (videoStreamOf 1920 1080))
         (FilterCmd ''in.mp4'' [Crop 607 1080 656 0, Scale 1080 1920] ''out.mp4'') {}"
    using cropToVertical_window
            [of "exampleWorld (videoStreamOf 1920 1080)" "''in.mp4''" "videoStreamOf 1920 1080"
                "videoStreamOf 1920 1080 ! 1" 1920 1080 "''out.mp4''" None "{}"]
    by (simp add: exampleWorld_def videoStreamOf_def)
  have b: "cropToVertical (exampleWorld (videoStreamOf 1080 2400)) ''in.mp4'' ''out.mp4''
         (Some \<lparr>CropOptions.width = None, CropOptions.height = None,
                 CropOptions.position = Some Bottom\<rparr>) {}
     = runFfmpeg (exampleWorld (videoStreamOf 1080 2400))
         (FilterCmd ''in.mp4'' [Crop 1080 1920 0 480, Scale 1080 1920] ''out.mp4'') {}"
    using cropToVertical_window
            [of "exampleWorld (videoStreamOf 1080 2400)" "''in.mp4''" "videoStreamOf 1080 2400"
                "videoStreamOf 1080 2400 ! 1" 1080 2400 "''out.mp4''"
                "Some \<lparr>CropOptions.width = None, CropOptions.height = None,
                        CropOptions.position = Some Bottom\<rparr>" "{}"]
    by (simp add: exampleWorld_def videoStreamOf_def targetWidthOf_def targetHeightOf_def
          positionOf_def)
  from a b show ?thesis by (rule conjI)
qed


section \<open>Properties of the temporary files\<close>

lemma unlink_removes: "p \<notin> snd (unlink p fs)"
  by (simp add: unlink_def)

lemma unlink_subset: "snd (unlink p fs) \<subseteq> fs"
  by (auto simp add: unlink_def)

lemma unlink_Inr: "unlink p fs = (Inr u, fs') \<Longrightarrow> fs' = fs - {p}"
  by (auto simp add: unlink_def split: if_splits)

lemma runFfmpeg_subset: "snd (runFfmpeg w cmd fs) \<subseteq> insert (outputOf cmd) fs"
  by (auto simp add: runFfmpeg_def split: ffmpegOutcome.splits if_splits)

lemma runFfmpeg_Inr: "runFfmpeg w cmd fs = (Inr u, fs') \<Longrightarrow> fs' = insert (outputOf cmd) fs"
  by (auto simp add: runFfmpeg_def split: ffmpegOutcome.splits if_splits)

lemma extractClip_Inr:
  "extractClip w i s e out fs = (Inr u, fs') \<Longrightarrow> fs' = insert out fs"
  by (auto simp add: extractClip_def Let_def dest: runFfmpeg_Inr)

lemma cropToVertical_Inr:
  "cropToVertical w i out options fs = (Inr u, fs') \<Longrightarrow> fs' = insert out fs"
  by (auto simp add: cropToVertical_def dest: runFfmpeg_Inr
        split: sum.splits option.splits if_splits)

lemma rename_Inr:
  "rename w old new fs = (Inr u, fs') \<Longrightarrow> fs' = insert new (fs - {old})"
  by (auto simp add: rename_def split: if_splits option.splits)

lemma burnCaptions_subset:
  "snd (burnCaptions w now i c out fs) \<subseteq> insert out fs"
proof (cases "writeFileError w (assPathOf w now)")
  case None
  have "snd (unlink a (snd (runFfmpeg w (AssCmd i a out) (insert a fs)))) \<subseteq> insert out fs" for a
    using unlink_removes [of a "snd (runFfmpeg w (AssCmd i a out) (insert a fs))"]
      unlink_subset [of a "snd (runFfmpeg w (AssCmd i a out) (insert a fs))"]
      runFfmpeg_subset [of w "AssCmd i a out" "insert a fs"]
    by auto
  with None show ?thesis
    by (simp add: burnCaptions_def Let_def andThen_def writeFile_def case_prod_beta)
next
  case (Some e)
  then show ?thesis
    by (auto simp add: burnCaptions_def Let_def andThen_def writeFile_def)
qed

lemma burnCaptions_removes:
  assumes "writeFileError w (assPathOf w now) = None"
  shows "assPathOf w now \<notin> snd (burnCaptions w now i c out fs)"
  using assms unlink_removes
  by (simp add: burnCaptions_def Let_def andThen_def writeFile_def case_prod_beta)

lemma temp_paths_differ: "extractedPathOf w ts \<noteq> croppedPathOf w ts"
  by (simp add: extractedPathOf_def croppedPathOf_def)

lemma andThen_Inr:
  "andThen r k = (Inr b, fs') \<Longrightarrow> \<exists>a fs1. r = (Inr a, fs1) \<and> k a fs1 = (Inr b, fs')"
  by (cases r) (auto simp add: andThen_def split: sum.splits)


lemma burn_then_unlink:
  assumes "andThen (burnCaptions w now p c out fs3) (\<lambda>_ fs4. unlink p fs4) = (Inr u, fs')"
  shows "fs' \<subseteq> insert out (fs3 - {p})"
proof -
  from andThen_Inr [OF assms] obtain a fs4
    where b: "burnCaptions w now p c out fs3 = (Inr a, fs4)" and ul: "unlink p fs4 = (Inr u, fs')"
    by blast
  have "fs4 \<subseteq> insert out fs3"
    using burnCaptions_subset [of w now p c out fs3] b by simp
  moreover have "fs' = fs4 - {p}" using ul by (rule unlink_Inr)
  ultimately show ?thesis by auto
qed

lemma last_step:
  assumes "(case c of
              Some c' \<Rightarrow>
                if shouldBurn
                then andThen (burnCaptions w now p c' out fs3) (\<lambda>_ fs4. unlink p fs4)
                else rename w p out fs3
            | None \<Rightarrow> rename w p out fs3) = (Inr u, fs')"
  shows "fs' \<subseteq> insert out (fs3 - {p})"
proof (cases c)
  case None
  with assms have "rename w p out fs3 = (Inr u, fs')" by simp
  then show ?thesis by (auto dest: rename_Inr)
next
  case (Some c')
  show ?thesis
  proof (cases shouldBurn)
    case True
    with Some assms
    have "andThen (burnCaptions w now p c' out fs3) (\<lambda>_ fs4. unlink p fs4) = (Inr u, fs')"
      by simp
    then show ?thesis by (rule burn_then_unlink)
  next
    case False
    with Some assms have "rename w p out fs3 = (Inr u, fs')" by simp
    then show ?thesis by (auto dest: rename_Inr)
  qed
qed

lemma crop_step:
  assumes "(if shouldCrop
            then andThen (cropToVertical w E C None fs1)
                   (\<lambda>_ fs2. andThen (unlink E fs2) (\<lambda>_ fs3. (Inr C, fs3)))
            else (Inr E, fs1)) = (Inr p, fs3)"
    and "C \<notin> fs1" and "E \<noteq> C"
  shows "(p = E \<or> p = C) \<and> (E \<in> fs3 \<longrightarrow> p = E) \<and> (C \<in> fs3 \<longrightarrow> p = C)"
proof (cases shouldCrop)
  case False
  with assms show ?thesis by auto
next
  case True
  with assms(1)
  have "andThen (cropToVertical w E C None fs1)
          (\<lambda>_ fs2. andThen (unlink E fs2) (\<lambda>_ fs3. (Inr C, fs3))) = (Inr p, fs3)"
    by simp
  from andThen_Inr [OF this] obtain a fs2
    where cr: "cropToVertical w E C None fs1 = (Inr a, fs2)"
      and r: "andThen (unlink E fs2) (\<lambda>_ fs3. (Inr C, fs3)) = (Inr p, fs3)"
    by blast
  from andThen_Inr [OF r] obtain b fs3'
    where ul: "unlink E fs2 = (Inr b, fs3')" and e: "(Inr C, fs3') = (Inr p, fs3)"
    by blast
  have "fs3 = fs2 - {E}" using unlink_Inr [OF ul] e by simp
  moreover have "p = C" using e by simp
  ultimately show ?thesis by auto
qed

lemma createClipSteps_Inr:
  assumes "outputPath \<noteq> extractedPathOf w timestamp"
    and "outputPath \<noteq> croppedPathOf w timestamp"
    and "croppedPathOf w timestamp \<notin> fs"
    and "createClipSteps w timestamp now i s e c outputPath shouldCrop shouldBurn fs = (Inr u, fs')"
  shows "extractedPathOf w timestamp \<notin> fs' \<and> croppedPathOf w timestamp \<notin> fs'"
proof -
  let ?E = "extractedPathOf w timestamp" and ?C = "croppedPathOf w timestamp"
  have EC: "?E \<noteq> ?C" by (rule temp_paths_differ)
  from andThen_Inr [OF assms(4) [unfolded createClipSteps_def Let_def]] obtain a fs1
    where ex: "extractClip w i s e ?E fs = (Inr a, fs1)"
      and r: "andThen
               (if shouldCrop
                then andThen (cropToVertical w ?E ?C None fs1)
                       (\<lambda>_ fs2. andThen (unlink ?E fs2) (\<lambda>_ fs3. (Inr ?C, fs3)))
                else (Inr ?E, fs1))
               (\<lambda>processedPath fs3.
                  case c of
                    Some c' \<Rightarrow>
                      if shouldBurn
                      then andThen (burnCaptions w now processedPath c' outputPath fs3)
                             (\<lambda>_ fs4. unlink processedPath fs4)
                      else rename w processedPath outputPath fs3
                  | None \<Rightarrow> rename w processedPath outputPath fs3) = (Inr u, fs')"
    by blast
  have fs1: "fs1 = insert ?E fs" using ex by (rule extractClip_Inr)
  then have C1: "?C \<notin> fs1" using assms(3) EC by auto
  from andThen_Inr [OF r] obtain p fs3
    where mid: "(if shouldCrop
                then andThen (cropToVertical w ?E ?C None fs1)
                       (\<lambda>_ fs2. andThen (unlink ?E fs2) (\<lambda>_ fs3. (Inr ?C, fs3)))
                else (Inr ?E, fs1)) = (Inr p, fs3)"
      and fin: "(case c of
                    Some c' \<Rightarrow>
                      if shouldBurn
                      then andThen (burnCaptions w now p c' outputPath fs3)
                             (\<lambda>_ fs4. unlink p fs4)
                      else rename w p outputPath fs3
                  | None \<Rightarrow> rename w p outputPath fs3) = (Inr u, fs')"
    by blast
  have p: "(p = ?E \<or> p = ?C) \<and> (?E \<in> fs3 \<longrightarrow> p = ?E) \<and> (?C \<in> fs3 \<longrightarrow> p = ?C)"
    by (rule crop_step [OF mid C1 EC])
  have "fs' \<subseteq> insert outputPath (fs3 - {p})" using fin by (rule last_step)
  with p assms(1) assms(2) show ?thesis by auto
qed

lemma createClip_cleanup:
  assumes "outputPath \<noteq> extractedPathOf w timestamp"
    and "outputPath \<noteq> croppedPathOf w timestamp"
    and "croppedPathOf w timestamp \<notin> fs"
  shows "extractedPathOf w timestamp \<notin> snd (createClip w timestamp now i s e c outputPath options fs)
         \<and> croppedPathOf w timestamp \<notin> snd (createClip w timestamp now i s e c outputPath options fs)"
proof -
  let ?E = "extractedPathOf w timestamp" and ?C = "croppedPathOf w timestamp"
  define shouldCrop where "shouldCrop =
     (case options of None \<Rightarrow> True
      | Some opts \<Rightarrow> (case opt_cropToVertical opts of None \<Rightarrow> True | Some b \<Rightarrow> b))"
  define shouldBurn where "shouldBurn =
     (case options of None \<Rightarrow> True
      | Some opts \<Rightarrow> (case opt_burnCaptions opts of None \<Rightarrow> True | Some b \<Rightarrow> b))"
  obtain res fs' where st:
    "createClipSteps w timestamp now i s e c outputPath shouldCrop shouldBurn fs = (res, fs')"
    by (cases "createClipSteps w timestamp now i s e c outputPath shouldCrop shouldBurn fs")
  show ?thesis
  proof (cases res)
    case (Inr u)
    with st have "?E \<notin> fs' \<and> ?C \<notin> fs'"
      using createClipSteps_Inr [OF assms] by simp
    with st Inr show ?thesis
      by (simp add: createClip_def Let_def shouldCrop_def [symmetric] shouldBurn_def [symmetric])
  next
    case (Inl err)
    have "?E \<notin> snd (unlink ?C (snd (unlink ?E fs')))"
      using unlink_removes [of ?E fs'] unlink_subset [of ?C "snd (unlink ?E fs')"] by auto
    moreover have "?C \<notin> snd (unlink ?C (snd (unlink ?E fs')))"
      by (rule unlink_removes)
    ultimately show ?thesis using st Inl
      by (simp add: createClip_def Let_def shouldCrop_def [symmetric] shouldBurn_def [symmetric])
  qed
qed


lemma burnCaptions_fresh:
  assumes "assPathOf w now \<notin> fs"
  shows "assPathOf w now \<notin> snd (burnCaptions w now i c out fs)"
proof (cases "writeFileError w (assPathOf w now)")
  case None
  then show ?thesis by (rule burnCaptions_removes)
next
  case (Some e)
  with assms show ?thesis
    by (simp add: burnCaptions_def Let_def andThen_def writeFile_def)
qed

text \<open>
  C7. Let the output path differ from the two temporary paths of an invocation of
  \<open>createClip\<close>, and let the cropped path not exist beforehand. Then, whatever the engine,
  \<open>ffprobe\<close>, \<open>writeFile\<close> and \<open>rename\<close> do, and whether \<open>createClip\<close> returns or
  throws, neither the extracted file nor the cropped file exists afterwards. When
  \<open>burnCaptions\<close> has written its subtitle file (or the path of that file did not exist
  beforehand), the subtitle file does not exist when \<open>burnCaptions\<close> returns or throws.
\<close>

theorem createClip_removes_temp_files:
  "(outputPath \<noteq> extractedPathOf w timestamp \<and> outputPath \<noteq> croppedPathOf w timestamp
      \<and> croppedPathOf w timestamp \<notin> fs \<longrightarrow>
      extractedPathOf w timestamp
        \<notin> snd (createClip w timestamp now inputVideoPath startSeconds endSeconds captionsResult
                 outputPath options fs)
      \<and> croppedPathOf w timestamp
        \<notin> snd (createClip w timestamp now inputVideoPath startSeconds endSeconds captionsResult
                 outputPath options fs))
   \<and> (writeFileError w (assPathOf w now) = None \<or> assPathOf w now \<notin> fs \<longrightarrow>
        assPathOf w now \<notin> snd (burnCaptions w now inputPath c burnOutputPath fs))"
  using createClip_cleanup [of outputPath w timestamp fs now inputVideoPath startSeconds endSeconds
          captionsResult options]
    burnCaptions_removes [of w now inputPath c burnOutputPath fs]
    burnCaptions_fresh [of w now fs inputPath c burnOutputPath]
  by blast

text \<open>
  The crop run fails and leaves a partial file: \<open>createClip\<close> throws the error of the
  engine and neither temporary file is left. A run of \<open>burnCaptions\<close> removes its
  subtitle file.
\<close>

theorem createClip_removes_temp_files_witness:
  "fst (createClip cropFailWorld 1700000000000 1700000000001 ''/videos/in.mp4'' 5 20
          (Some holaCaptions) ''/videos/out.mp4'' None {''/videos/in.mp4''})
     = Inl (Error ''FFmpeg error: crop failed'')
   \<and> ''/tmp/clip-1700000000000-extracted.mp4''
       \<notin> snd (createClip cropFailWorld 1700000000000 1700000000001 ''/videos/in.mp4'' 5 20
                (Some holaCaptions) ''/videos/out.mp4'' None {''/videos/in.mp4''})
   \<and> ''/tmp/clip-1700000000000-cropped.mp4''
       \<notin> snd (createClip cropFailWorld 1700000000000 1700000000001 ''/videos/in.mp4'' 5 20
                (Some holaCaptions) ''/videos/out.mp4'' None {''/videos/in.mp4''})
   \<and> ''/tmp/captions-1700000000001.ass''
       \<notin> snd (burnCaptions cropFailWorld 1700000000001 ''/tmp/clip-1700000000000-cropped.mp4''
                holaCaptions ''/videos/out.mp4'' {''/tmp/clip-1700000000000-cropped.mp4''})"
proof -
  have E: "extractedPathOf cropFailWorld 1700000000000 = ''/tmp/clip-1700000000000-extracted.mp4''"
    by (simp add: extractedPathOf_def cropFailWorld_def natToString.simps digitChar_def)
  have C: "croppedPathOf cropFailWorld 1700000000000 = ''/tmp/clip-1700000000000-cropped.mp4''"
    by (simp add: croppedPathOf_def cropFailWorld_def natToString.simps digitChar_def)
  have A: "assPathOf cropFailWorld 1700000000001 = ''/tmp/captions-1700000000001.ass''"
    by (simp add: assPathOf_def cropFailWorld_def natToString.simps digitChar_def)
  have h1: "''/videos/out.mp4'' \<noteq> extractedPathOf cropFailWorld 1700000000000
            \<and> ''/videos/out.mp4'' \<noteq> croppedPathOf cropFailWorld 1700000000000
            \<and> croppedPathOf cropFailWorld 1700000000000 \<notin> {''/videos/in.mp4''}"
    unfolding E C by simp
  have h2: "writeFileError cropFailWorld (assPathOf cropFailWorld 1700000000001) = None
            \<or> assPathOf cropFailWorld 1700000000001 \<notin> {''/tmp/clip-1700000000000-cropped.mp4''}"
    by (simp add: cropFailWorld_def)
  note inst = createClip_removes_temp_files
                [of "''/videos/out.mp4''" cropFailWorld 1700000000000 "{''/videos/in.mp4''}"
                    1700000000001 "''/videos/in.mp4''" 5 20 "Some holaCaptions" None]
  have a: "fst (createClip cropFailWorld 1700000000000 1700000000001 ''/videos/in.mp4'' 5 20
          (Some holaCaptions) ''/videos/out.mp4'' None {''/videos/in.mp4''})
     = Inl (Error ''FFmpeg error: crop failed'')"
    by (simp add: createClip_def createClipSteps_def Let_def andThen_def extractClip_def
          runFfmpeg_def cropToVertical_def cropFailWorld_def unlink_def)
  note inst2 = createClip_removes_temp_files
                 [where w = cropFailWorld and now = 1700000000001
                    and fs = "{''/tmp/clip-1700000000000-cropped.mp4''}"
                    and inputPath = "''/tmp/clip-1700000000000-cropped.mp4''"
                    and c = holaCaptions and burnOutputPath = "''/videos/out.mp4''"]
  note b = inst [THEN conjunct1, THEN mp, OF h1, unfolded E C]
  note d = inst2 [THEN conjunct2, THEN mp, OF h2, unfolded A]
  from a b [THEN conjunct1] b [THEN conjunct2] d show ?thesis by (intro conjI)
qed

end
